theory Spec2Isabelle
  imports Complex_Main
begin

section \<open>GPT-2 training script (GPT/train.py): a shallow embedding\<close>

text \<open>
  The script computes in 32-bit and 64-bit floating point. The learning-rate schedule,
  which computes in Python floats, is modelled in double-precision arithmetic with its
  rounding. The entries of the tensors of the network are idealised as \<^typ>\<open>real\<close>
  numbers: there rounding, overflow and NaN are outside the model. Python's unbounded
  integers are \<^typ>\<open>int\<close>; sizes and indices that the code only ever uses as
  non-negative counts are \<^typ>\<open>nat\<close>.
  Exceptions are values of the type \<open>error\<close>; a function that can raise
  returns \<open>error + 'a\<close>, with \<open>Inl\<close> for the exception.
\<close>

datatype error =
    AssertionError
  | ZeroDivisionError
  | IndexError
  | ValueError
  | TypeError
  | RuntimeError

subsection \<open>Double-precision arithmetic\<close>

text \<open>
  Python floats are IEEE 754 binary64 numbers, and the entries of a \<open>float32\<close> tensor
  are binary32 numbers. A finite floating-point number is modelled by the real number
  it denotes, and every operation returns the exact result rounded to the nearest
  number with a significand of \<open>p\<close> bits (53 for a double, 24 for a single), ties to
  the even significand.
  The range of the exponent is taken unbounded: overflow and gradual underflow need
  magnitudes beyond \<open>1.8e308\<close> or below \<open>2.3e-308\<close>, far from those of a learning rate.

  \<open>round_half_even\<close> rounds to the nearest integer, ties to even; \<open>float_exponent x\<close> is
  the exponent \<open>e\<close> with \<open>2\<^sup>e \<le> |x| < 2\<^sup>e\<^sup>+\<^sup>1\<close>; \<open>ulp p x\<close> is the distance between the
  numbers with \<open>p\<close> bits of that exponent.
\<close>

definition round_half_even :: "real \<Rightarrow> int" where
  "round_half_even y =
     (let f = \<lfloor>y\<rfloor>; r = y - of_int f
      in if r < 1 / 2 then f else if 1 / 2 < r then f + 1 else if even f then f else f + 1)"

definition float_exponent :: "real \<Rightarrow> int" where
  "float_exponent x = \<lfloor>log 2 \<bar>x\<bar>\<rfloor>"

definition ulp :: "nat \<Rightarrow> real \<Rightarrow> real" where
  "ulp p x = 2 powi (float_exponent x - int p + 1)"

definition round_float :: "nat \<Rightarrow> real \<Rightarrow> real" where
  "round_float p x = (if x = 0 then 0 else of_int (round_half_even (x / ulp p x)) * ulp p x)"

definition round_double :: "real \<Rightarrow> real" where
  "round_double x = round_float 53 x"

definition round_single :: "real \<Rightarrow> real" where
  "round_single x = round_float 24 x"

definition is_double :: "real \<Rightarrow> bool" where
  "is_double x \<longleftrightarrow> round_double x = x"

text \<open>
  The operators \<open>+\<close>, \<open>-\<close>, \<open>*\<close>, \<open>/\<close> on floats, the conversion of an \<open>int\<close> operand to
  a float, and the true division \<open>/\<close> of two \<open>int\<close>s, which Python rounds once.
\<close>

definition fadd :: "real \<Rightarrow> real \<Rightarrow> real" where
  "fadd a b = round_double (a + b)"


definition fmul :: "real \<Rightarrow> real \<Rightarrow> real" where
  "fmul a b = round_double (a * b)"


definition float_of_int :: "int \<Rightarrow> real" where
  "float_of_int i = round_double (of_int i)"




subsection \<open>Learning-rate schedule: \<open>get_lr\<close>\<close>




subsection \<open>Configuration and tensors\<close>

record GPTConfig =
  block_size :: nat
  vocab_size :: nat
  n_layer :: nat
  n_head :: nat
  n_embd :: nat
  batch_size :: nat

definition default_config :: GPTConfig where
  "default_config =
     \<lparr>block_size = 1024, vocab_size = 50257, n_layer = 12, n_head = 12, n_embd = 768,
      batch_size = 2\<rparr>"

text \<open>The configuration of the main block: \<open>GPTConfig(vocab_size=50304)\<close>.\<close>

definition main_config :: GPTConfig where
  "main_config = default_config\<lparr>vocab_size := 50304\<rparr>"

text \<open>
  A vector is a list of reals, a matrix the list of its rows (a weight of
  \<open>nn.Linear\<close> has one row per output feature, a weight of \<open>nn.Embedding\<close> one
  row per index). A two-dimensional tensor of token ids carries its \<open>size()\<close>
  beside its rows, so that the sequence length of an empty batch is still known.
\<close>

type_synonym vec = "real list"
type_synonym mat = "real list list"

record 'a tensor2 =
  size0 :: nat
  size1 :: nat
  rows :: "'a list list"

definition wf_tensor2 :: "'a tensor2 \<Rightarrow> bool" where
  "wf_tensor2 t \<longleftrightarrow> length (rows t) = size0 t \<and> list_all (\<lambda>r. length r = size1 t) (rows t)"

definition dot :: "vec \<Rightarrow> vec \<Rightarrow> real" where
  "dot a b = sum_list (map2 (*) a b)"

definition vadd :: "vec \<Rightarrow> vec \<Rightarrow> vec" where
  "vadd a b = map2 (+) a b"

subsection \<open>Layers\<close>

text \<open>\<open>nn.Linear\<close>: \<open>y = W x + b\<close>; the bias is absent with \<open>bias=False\<close>.\<close>

record linear =
  lin_weight :: mat
  lin_bias :: "vec option"

definition linear_forward :: "linear \<Rightarrow> vec \<Rightarrow> vec" where
  "linear_forward l x =
     (let y = map (\<lambda>row. dot row x) (lin_weight l)
      in case lin_bias l of None \<Rightarrow> y | Some b \<Rightarrow> vadd y b)"

text \<open>
  \<open>nn.LayerNorm\<close> over the last dimension: biased variance, \<open>eps = 1e-5\<close> (the
  default of the constructor), then the elementwise affine map.
\<close>

record layer_norm =
  ln_weight :: vec
  ln_bias :: vec

definition ln_eps :: real where
  "ln_eps = 1 / 100000"

definition layer_norm_forward :: "layer_norm \<Rightarrow> vec \<Rightarrow> vec" where
  "layer_norm_forward l x =
     (let n = real (length x);
          mu = sum_list x / n;
          var = sum_list (map (\<lambda>a. (a - mu)\<^sup>2) x) / n;
          xhat = map (\<lambda>a. (a - mu) / sqrt (var + ln_eps)) x
      in vadd (map2 (*) xhat (ln_weight l)) (ln_bias l))"

text \<open>
  \<open>nn.Embedding\<close>: a row lookup; an index outside \<open>[0, num_embeddings)\<close> raises
  \<open>IndexError\<close>.
\<close>

definition in_range :: "nat \<Rightarrow> int \<Rightarrow> bool" where
  "in_range n i \<longleftrightarrow> 0 \<le> i \<and> i < int n"

definition embedding :: "mat \<Rightarrow> int list \<Rightarrow> error + vec list" where
  "embedding w ids =
     (if list_all (in_range (length w)) ids then Inr (map (\<lambda>i. w ! nat i) ids)
      else Inl IndexError)"

definition embedding2 :: "mat \<Rightarrow> int list list \<Rightarrow> error + vec list list" where
  "embedding2 w idss =
     (if list_all (list_all (in_range (length w))) idss
      then Inr (map (map (\<lambda>i. w ! nat i)) idss)
      else Inl IndexError)"

subsection \<open>Causal self-attention\<close>

text \<open>
  \<open>F.scaled_dot_product_attention(q, k, v, is_causal=True)\<close> for one batch element and
  one head, after the reference implementation in the documentation of the function:
  the scores \<open>q k\<^sup>T / sqrt E\<close> (\<open>E\<close> the width of a head) get the bias \<open>-inf\<close> above
  the diagonal, a softmax over each row gives the weights, and the result is the
  weights times \<open>v\<close>. A masked score is \<open>None\<close>; its exponential is 0.
\<close>

definition causal_scores :: "nat \<Rightarrow> vec list \<Rightarrow> vec list \<Rightarrow> nat \<Rightarrow> real option list" where
  "causal_scores E q k i =
     map (\<lambda>j. if j \<le> i then Some (dot (q ! i) (k ! j) * (1 / sqrt (real E))) else None)
       [0..<length k]"

definition exp_masked :: "real option \<Rightarrow> real" where
  "exp_masked s = (case s of None \<Rightarrow> 0 | Some a \<Rightarrow> exp a)"

definition softmax_masked :: "real option list \<Rightarrow> vec" where
  "softmax_masked s =
     (let e = map exp_masked s; total = sum_list e in map (\<lambda>a. a / total) e)"

definition weighted_values :: "nat \<Rightarrow> vec \<Rightarrow> vec list \<Rightarrow> vec" where
  "weighted_values E w v =
     map (\<lambda>c. sum_list (map (\<lambda>j. w ! j * (v ! j) ! c) [0..<length v])) [0..<E]"

definition scaled_dot_product_attention :: "nat \<Rightarrow> vec list \<Rightarrow> vec list \<Rightarrow> vec list \<Rightarrow> vec list" where
  "scaled_dot_product_attention E q k v =
     map (\<lambda>i. weighted_values E (softmax_masked (causal_scores E q k i)) v) [0..<length q]"

text \<open>
  \<open>SelfAttention.forward\<close> on one batch element \<open>x\<close> of shape \<open>(T, C)\<close>; the code
  runs it on every element of the batch independently. \<open>qkv.split(n_embd, dim=2)\<close>
  cuts each row into its first, second and third \<open>n_embd\<close> coordinates; the view
  \<open>(B, T, n_head, C // n_head)\<close> with \<open>transpose(1, 2)\<close> gives head \<open>i\<close> the
  coordinates \<open>i * E ..< (i + 1) * E\<close> of every position, and the closing
  \<open>transpose(1, 2).contiguous().view(B, T, C)\<close> lays the heads side by side again.
  \<open>C\<close> is the width of the input, which is \<open>n_embd\<close> whenever \<open>c_attn\<close> accepts it.
\<close>

record self_attention =
  c_attn :: linear
  attn_c_proj :: linear
  attn_n_head :: nat
  attn_n_embd :: nat

definition head_slice :: "nat \<Rightarrow> nat \<Rightarrow> vec \<Rightarrow> vec" where
  "head_slice E i u = take E (drop (i * E) u)"

definition self_attention_forward :: "self_attention \<Rightarrow> vec list \<Rightarrow> vec list" where
  "self_attention_forward a x =
     (let T = length x;
          C = attn_n_embd a;
          qkv = map (linear_forward (c_attn a)) x;
          q = map (take C) qkv;
          k = map (\<lambda>u. take C (drop C u)) qkv;
          v = map (\<lambda>u. take C (drop (2 * C) u)) qkv;
          E = C div attn_n_head a;
          heads = map (\<lambda>i. scaled_dot_product_attention E
                     (map (head_slice E i) q) (map (head_slice E i) k) (map (head_slice E i) v))
                   [0..<attn_n_head a];
          y = map (\<lambda>t. concat (map (\<lambda>y_i. y_i ! t) heads)) [0..<T]
      in map (linear_forward (attn_c_proj a)) y)"

subsection \<open>Feed-forward and block\<close>

text \<open>
  \<open>nn.GELU()\<close> is the activation \<open>x \<Phi>(x)\<close> of the library, applied to each
  coordinate; it is a field of the module, as in the source.
\<close>

record mlp =
  c_fc :: linear
  mlp_c_proj :: linear
  gelu :: "real \<Rightarrow> real"

definition mlp_forward :: "mlp \<Rightarrow> vec \<Rightarrow> vec" where
  "mlp_forward m x = linear_forward (mlp_c_proj m) (map (gelu m) (linear_forward (c_fc m) x))"

record block =
  ln_1 :: layer_norm
  ln_2 :: layer_norm
  attn :: self_attention
  mlp :: mlp

definition block_forward :: "block \<Rightarrow> vec list \<Rightarrow> vec list" where
  "block_forward b x =
     (let x1 = map2 vadd x (self_attention_forward (attn b) (map (layer_norm_forward (ln_1 b)) x));
          x2 = map2 vadd x1 (map (mlp_forward (mlp b)) (map (layer_norm_forward (ln_2 b)) x1))
      in x2)"

subsection \<open>The model: \<open>GPT.forward\<close>\<close>

record gpt =
  config :: GPTConfig
  wte :: mat
  wpe :: mat
  h :: "block list"
  ln_f :: layer_norm
  lm_head :: linear

text \<open>
  \<open>F.cross_entropy(input, target)\<close> with its defaults (\<open>reduction='mean'\<close>,
  \<open>ignore_index=-100\<close>): \<open>input\<close> has one row of \<open>V\<close> logits per entry. A
  different number of rows and targets raises \<open>ValueError\<close>; a target that is
  neither \<open>-100\<close> nor a class index raises \<open>IndexError\<close>; entries whose target is
  \<open>-100\<close> are left out of the sum and of the count. (Over no entry at all the
  library returns NaN; the quotient of the model is then 0.)
\<close>

definition log_softmax :: "vec \<Rightarrow> vec" where
  "log_softmax z = (let lse = ln (sum_list (map exp z)) in map (\<lambda>a. a - lse) z)"

definition cross_entropy :: "nat \<Rightarrow> vec list \<Rightarrow> int list \<Rightarrow> error + real" where
  "cross_entropy V inp tgt =
     (if length inp \<noteq> length tgt then Inl ValueError
      else if \<not> list_all (\<lambda>t. t = - 100 \<or> in_range V t) tgt then Inl IndexError
      else
        (let kept = filter (\<lambda>(z, t). t \<noteq> - 100) (zip inp tgt)
         in Inr (sum_list (map (\<lambda>(z, t). - (log_softmax z ! nat t)) kept) / real (length kept))))"

text \<open>
  The logits of a batch whose checks have passed: positional plus token embedding,
  the blocks in order, the final normalisation and the output projection, each on
  every batch element.
\<close>

definition gpt_body :: "gpt \<Rightarrow> vec list \<Rightarrow> vec list list \<Rightarrow> vec list list" where
  "gpt_body m pos_emb tok_emb =
     (let x = map (\<lambda>e. map2 vadd pos_emb e) tok_emb;
          x = fold (\<lambda>b x. map (block_forward b) x) (h m) x;
          x = map (map (layer_norm_forward (ln_f m))) x
      in map (map (linear_forward (lm_head m))) x)"

definition forward :: "gpt \<Rightarrow> int tensor2 \<Rightarrow> int tensor2 option \<Rightarrow> error + (vec list list \<times> real option)" where
  "forward m idx targets =
     (let T = size1 idx in
      if \<not> T \<le> block_size (config m) then Inl AssertionError
      else
        (case embedding (wpe m) (map int [0..<T]) of
           Inl e \<Rightarrow> Inl e
         | Inr pos_emb \<Rightarrow>
            (case embedding2 (wte m) (rows idx) of
               Inl e \<Rightarrow> Inl e
             | Inr tok_emb \<Rightarrow>
                (let logits = gpt_body m pos_emb tok_emb in
                 case targets of
                   None \<Rightarrow> Inr (logits, None)
                 | Some tg \<Rightarrow>
                    (case cross_entropy (length (lin_weight (lm_head m)))
                            (concat logits) (concat (rows tg)) of
                       Inl e \<Rightarrow> Inl e
                     | Inr loss \<Rightarrow> Inr (logits, Some loss))))))"

subsection \<open>A model of the smallest shape\<close>

text \<open>
  One block, one head, width 1, context length 2 and a vocabulary of 2 tokens; the
  activation is the sigmoid form of GELU. The theorems below are instantiated on it.
\<close>

definition tiny_config :: GPTConfig where
  "tiny_config =
     \<lparr>block_size = 2, vocab_size = 2, n_layer = 1, n_head = 1, n_embd = 1, batch_size = 1\<rparr>"

definition unit_norm :: layer_norm where
  "unit_norm = \<lparr>ln_weight = [1], ln_bias = [0]\<rparr>"

definition tiny_block :: block where
  "tiny_block =
     \<lparr>ln_1 = unit_norm, ln_2 = unit_norm,
      attn = \<lparr>c_attn = \<lparr>lin_weight = [[1], [1], [1]], lin_bias = Some [0, 0, 0]\<rparr>,
               attn_c_proj = \<lparr>lin_weight = [[1]], lin_bias = Some [0]\<rparr>,
               attn_n_head = 1, attn_n_embd = 1\<rparr>,
      mlp = \<lparr>c_fc = \<lparr>lin_weight = [[1], [1], [1], [1]], lin_bias = Some [0, 0, 0, 0]\<rparr>,
              mlp_c_proj = \<lparr>lin_weight = [[1, 1, 1, 1]], lin_bias = Some [0]\<rparr>,
              gelu = (\<lambda>x. x / (1 + exp (- (1702 / 1000) * x)))\<rparr>\<rparr>"

definition tiny_gpt :: gpt where
  "tiny_gpt =
     \<lparr>config = tiny_config, wte = [[1], [2]], wpe = [[0], [1]], h = [tiny_block],
      ln_f = unit_norm, lm_head = \<lparr>lin_weight = [[1], [2]], lin_bias = None\<rparr>\<rparr>"

subsection \<open>Auxiliary notions of the proofs\<close>

text \<open>
  Row \<open>i\<close> of causal attention in closed form: the sum of the exponentials of the
  unmasked scores, and the weighted sum of the values at positions \<open>0..i\<close>.
\<close>

definition attn_total :: "nat \<Rightarrow> vec list \<Rightarrow> vec list \<Rightarrow> nat \<Rightarrow> real" where
  "attn_total E q k i = sum_list (map (\<lambda>j. exp (dot (q ! i) (k ! j) * (1 / sqrt (real E)))) [0..<Suc i])"

definition causal_row :: "nat \<Rightarrow> vec list \<Rightarrow> vec list \<Rightarrow> vec list \<Rightarrow> nat \<Rightarrow> vec" where
  "causal_row E q k v i =
     map (\<lambda>c. sum_list (map (\<lambda>j. exp (dot (q ! i) (k ! j) * (1 / sqrt (real E))) / attn_total E q k i
                                  * (v ! j) ! c) [0..<Suc i])) [0..<E]"

text \<open>The logits of one batch element, from its positional and token embeddings.\<close>

definition row_logits :: "gpt \<Rightarrow> vec list \<Rightarrow> vec list \<Rightarrow> vec list" where
  "row_logits m pos_emb e =
     map (linear_forward (lm_head m))
       (map (layer_norm_forward (ln_f m)) (fold block_forward (h m) (map2 vadd pos_emb e)))"

subsection \<open>Shapes and sample batches\<close>

text \<open>
  What \<open>GPT.__init__\<close> fixes about the shapes that the checks of \<open>forward\<close>
  read: \<open>wte = nn.Embedding(vocab_size, n_embd)\<close>, \<open>wpe = nn.Embedding(block_size,
  n_embd)\<close> and \<open>lm_head = nn.Linear(n_embd, vocab_size, bias=False)\<close>.
\<close>

definition constructed_shapes :: "gpt \<Rightarrow> bool" where
  "constructed_shapes m \<longleftrightarrow>
     length (wte m) = vocab_size (config m) \<and>
     length (wpe m) = block_size (config m) \<and>
     length (lin_weight (lm_head m)) = vocab_size (config m) \<and>
     lin_bias (lm_head m) = None"

text \<open>The logits of a batch that passes the checks of \<open>forward\<close>.\<close>

definition gpt_logits :: "gpt \<Rightarrow> int tensor2 \<Rightarrow> vec list list" where
  "gpt_logits m idx =
     gpt_body m (map (\<lambda>i. wpe m ! nat i) (map int [0..<size1 idx]))
       (map (map (\<lambda>i. wte m ! nat i)) (rows idx))"

text \<open>Three batches of one row for the model of the smallest shape.\<close>

definition idx_a :: "int tensor2" where
  "idx_a = \<lparr>size0 = 1, size1 = 2, rows = [[0, 0]]\<rparr>"

definition idx_b :: "int tensor2" where
  "idx_b = \<lparr>size0 = 1, size1 = 2, rows = [[0, 1]]\<rparr>"

definition idx_long :: "int tensor2" where
  "idx_long = \<lparr>size0 = 1, size1 = 3, rows = [[0, 1, 0]]\<rparr>"

subsection \<open>The loss in the words of the specification\<close>

text \<open>
  The cross-entropy of one entry is minus the logarithm of the softmax probability of
  its target; the loss of a batch is the average over all \<open>B \<times> T\<close> entries.
\<close>

definition token_cross_entropy :: "vec \<Rightarrow> int \<Rightarrow> real" where
  "token_cross_entropy z t = - ln (exp (z ! nat t) / sum_list (map exp z))"

definition mean_cross_entropy :: "vec list list \<Rightarrow> int list list \<Rightarrow> nat \<Rightarrow> nat \<Rightarrow> real" where
  "mean_cross_entropy logits targets B T =
     sum_list (map (\<lambda>b. sum_list (map (\<lambda>t. token_cross_entropy (logits ! b ! t) (targets ! b ! t))
                                      [0..<T])) [0..<B])
     / real (B * T)"

subsection \<open>Generation: \<open>GPT.generate\<close>\<close>











subsection \<open>Batch sampler: \<open>DataLoaderLite\<close>\<close>

text \<open>
  The state of the loader after its constructor: the two sizes, the token sequence
  and the cursor \<open>current\<close>. (The fields \<open>B\<close> and \<open>T\<close> of the source are
  \<open>loader_B\<close> and \<open>loader_T\<close>.)
\<close>

record DataLoaderLite =
  loader_B :: nat
  loader_T :: nat
  tokens :: "int list"
  current :: nat

text \<open>
  \<open>view(B, T)\<close> of a one-dimensional tensor: \<open>RuntimeError\<close> unless it has \<open>B * T\<close>
  elements, else row \<open>b\<close> holds the elements \<open>b * T ..< (b + 1) * T\<close>.
\<close>

definition as_rows :: "nat \<Rightarrow> nat \<Rightarrow> 'a list \<Rightarrow> 'a tensor2" where
  "as_rows nb nt xs =
     \<lparr>size0 = nb, size1 = nt, rows = map (\<lambda>b. take nt (drop (b * nt) xs)) [0..<nb]\<rparr>"

definition view2 :: "nat \<Rightarrow> nat \<Rightarrow> 'a list \<Rightarrow> error + 'a tensor2" where
  "view2 nb nt xs = (if length xs \<noteq> nb * nt then Inl RuntimeError else Inr (as_rows nb nt xs))"

text \<open>
  \<open>next_batch\<close>: the slice \<open>tokens[current : current + B * T + 1]\<close> is cut short at
  the end of the sequence, \<open>buff[:-1]\<close> drops its last and \<open>buff[1:]\<close> its first
  element. The cursor is written only after both views have succeeded.
\<close>

definition next_batch :: "DataLoaderLite \<Rightarrow> error + ((int tensor2 \<times> int tensor2) \<times> DataLoaderLite)" where
  "next_batch s =
     (let nb = loader_B s; nt = loader_T s;
          buff = take (nb * nt + 1) (drop (current s) (tokens s))
      in case view2 nb nt (butlast buff) of
           Inl e \<Rightarrow> Inl e
         | Inr x \<Rightarrow>
            (case view2 nb nt (tl buff) of
               Inl e \<Rightarrow> Inl e
             | Inr y \<Rightarrow>
                (let cur = current s + nb * nt;
                     cur = (if cur + nb * nt + 1 \<ge> length (tokens s) then 0 else cur)
                 in Inr ((x, y), s\<lparr>current := cur\<rparr>))))"

text \<open>\<open>n\<close> calls of \<open>next_batch\<close> in a row, as the training loop makes them.\<close>

fun next_batches :: "nat \<Rightarrow> DataLoaderLite \<Rightarrow> error + ((int tensor2 \<times> int tensor2) list \<times> DataLoaderLite)" where
  "next_batches 0 s = Inr ([], s)"
| "next_batches (Suc n) s =
     (case next_batch s of
        Inl e \<Rightarrow> Inl e
      | Inr (b, s') \<Rightarrow>
         (case next_batches n s' of
            Inl e \<Rightarrow> Inl e
          | Inr (bs, s'') \<Rightarrow> Inr (b # bs, s'')))"

text \<open>The tokens that a list of batches shows, as inputs or as targets.\<close>

definition visited :: "(int tensor2 \<times> int tensor2) list \<Rightarrow> int set" where
  "visited bs = set (concat (map (\<lambda>(x, y). concat (rows x) @ concat (rows y)) bs))"

definition ceil_div :: "nat \<Rightarrow> nat \<Rightarrow> nat" where
  "ceil_div a b = (a + b - 1) div b"

text \<open>Two loaders with \<open>B = T = 2\<close>: ten tokens \<open>10, \<dots>, 19\<close>, and three tokens.\<close>

definition loader10 :: DataLoaderLite where
  "loader10 = \<lparr>loader_B = 2, loader_T = 2, tokens = [10, 11, 12, 13, 14, 15, 16, 17, 18, 19],
               current = 0\<rparr>"

definition loader3 :: DataLoaderLite where
  "loader3 = \<lparr>loader_B = 2, loader_T = 2, tokens = [10, 11, 12], current = 0\<rparr>"

text \<open>
  The tokens that a list of batches returns as inputs, and those it returns as
  targets, in the order of the calls and, within a batch, row by row.
\<close>

definition batch_inputs :: "(int tensor2 \<times> int tensor2) list \<Rightarrow> int list" where
  "batch_inputs bs = concat (map (\<lambda>(x, y). concat (rows x)) bs)"

definition batch_targets :: "(int tensor2 \<times> int tensor2) list \<Rightarrow> int list" where
  "batch_targets bs = concat (map (\<lambda>(x, y). concat (rows y)) bs)"

subsection \<open>Training loop: the loss diagnostic \<open>loss_accum\<close>\<close>

text \<open>
  The part of the main loop that touches \<open>loss_accum\<close>. The loss the model returns
  at micro-step \<open>m\<close> of step \<open>s\<close>, a \<open>float32\<close> scalar, is the parameter \<open>loss s m\<close>; the
  division by the integer \<open>grad_accum_steps\<close> converts the integer to \<open>float32\<close> and
  divides in \<open>float32\<close>, \<open>item()\<close> converts the result to a Python float without
  rounding, and \<open>+=\<close> adds Python floats. \<open>printed\<close> collects the value of \<open>loss_accum\<close> that each step's \<open>print\<close>
  shows.

    loss_accum = 0.0
    for step in range(max_steps):
        for mikro_step in range(grad_accum_steps):
            logits, loss = model(x, y)
            loss = loss / grad_accum_steps
            loss_accum += loss.detach().item()
        print(f"Step {step} | Loss: {loss_accum:.4f} ...")
\<close>

record train_state =
  loss_accum :: real
  printed :: "real list"

definition mikro_steps :: "nat \<Rightarrow> (nat \<Rightarrow> real) \<Rightarrow> real \<Rightarrow> real" where
  "mikro_steps grad_accum_steps loss acc =
     fold (\<lambda>mikro_step acc.
             fadd acc (round_single (loss mikro_step / round_single (real grad_accum_steps))))
       [0..<grad_accum_steps] acc"

definition train_step :: "nat \<Rightarrow> (nat \<Rightarrow> nat \<Rightarrow> real) \<Rightarrow> nat \<Rightarrow> train_state \<Rightarrow> train_state" where
  "train_step grad_accum_steps loss step st =
     (let acc = mikro_steps grad_accum_steps (loss step) (loss_accum st)
      in \<lparr>loss_accum = acc, printed = printed st @ [acc]\<rparr>)"

definition train_loop :: "nat \<Rightarrow> (nat \<Rightarrow> nat \<Rightarrow> real) \<Rightarrow> nat \<Rightarrow> train_state" where
  "train_loop grad_accum_steps loss n_steps =
     fold (train_step grad_accum_steps loss) [0..<n_steps] \<lparr>loss_accum = 0, printed = []\<rparr>"

text \<open>
  The notions of the claim: the mean of the micro-step losses of one step, in exact
  arithmetic; the contributions \<open>loss / grad_accum_steps\<close> of the micro-steps of one
  step, as the loop adds them, and those of the first \<open>n\<close> steps of the run; and the
  sum of a list of floats in the order of the list, from a start value.
\<close>

definition mean_loss :: "nat \<Rightarrow> (nat \<Rightarrow> nat \<Rightarrow> real) \<Rightarrow> nat \<Rightarrow> real" where
  "mean_loss grad_accum_steps loss step =
     (\<Sum>mikro_step<grad_accum_steps. loss step mikro_step) / real grad_accum_steps"

definition contributions :: "nat \<Rightarrow> (nat \<Rightarrow> nat \<Rightarrow> real) \<Rightarrow> nat \<Rightarrow> real list" where
  "contributions grad_accum_steps loss step =
     map (\<lambda>mikro_step.
            round_single (loss step mikro_step / round_single (real grad_accum_steps)))
       [0..<grad_accum_steps]"

definition run_contributions :: "nat \<Rightarrow> (nat \<Rightarrow> nat \<Rightarrow> real) \<Rightarrow> nat \<Rightarrow> real list" where
  "run_contributions grad_accum_steps loss n =
     concat (map (contributions grad_accum_steps loss) [0..<n])"

definition float_sum :: "real list \<Rightarrow> real \<Rightarrow> real" where
  "float_sum cs acc = fold (\<lambda>c acc. fadd acc c) cs acc"

text \<open>
  A run of two steps with two micro-steps each: the loss is 2 at both micro-steps of
  the first step and \<open>2\<^sup>-\<^sup>5\<^sup>1\<close> at both micro-steps of the second.
\<close>

definition loss_tiny :: "nat \<Rightarrow> nat \<Rightarrow> real" where
  "loss_tiny s m = (if s = 0 then 2 else 1 / 2 ^ 51)"

subsection \<open>Construction and initialisation of the parameters: \<open>GPT.__init__\<close>\<close>

text \<open>
  The parameter tensors live in a store, a list of cells; the address of a tensor is
  its index, and a module holds the addresses of its parameters, so that two modules
  can hold the same tensor. The content of a cell records how the entries of the
  tensor were last set: by the constructor of its module in a way that does not
  matter here (\<open>DefaultInit\<close>), to ones or zeros (the weight and the bias of a new
  \<open>nn.LayerNorm\<close>), by a draw from the normal distribution with a mean and a standard
  deviation (\<open>torch.nn.init.normal_\<close>), or by step \<open>k\<close> of the optimizer from a former
  content.
\<close>

datatype tensor = DefaultInit | Ones | Zeros | Normal real real | Updated nat tensor

type_synonym addr = nat
type_synonym store = "tensor list"

text \<open>
  \<open>nn.Linear\<close> with its optional bias and the attribute \<open>NANOGPT_SCALE_INIT\<close>, which the
  constructors of \<open>SelfAttention\<close> and \<open>MLP\<close> set on their \<open>c_proj\<close>; \<open>nn.Embedding\<close>;
  \<open>nn.LayerNorm\<close>. A constructor appends the new tensors to the store.
\<close>

record linear_module =
  weight_ref :: addr
  bias_ref :: "addr option"
  scale_init :: bool

record embedding_module =
  emb_weight_ref :: addr

record layer_norm_module =
  norm_weight_ref :: addr
  norm_bias_ref :: addr

definition new_Linear :: "bool \<Rightarrow> store \<Rightarrow> linear_module \<times> store" where
  "new_Linear has_bias st =
     (if has_bias
      then (\<lparr>weight_ref = length st, bias_ref = Some (length st + 1), scale_init = False\<rparr>,
            st @ [DefaultInit, DefaultInit])
      else (\<lparr>weight_ref = length st, bias_ref = None, scale_init = False\<rparr>,
            st @ [DefaultInit]))"

definition new_Embedding :: "store \<Rightarrow> embedding_module \<times> store" where
  "new_Embedding st = (\<lparr>emb_weight_ref = length st\<rparr>, st @ [DefaultInit])"

definition new_LayerNorm :: "store \<Rightarrow> layer_norm_module \<times> store" where
  "new_LayerNorm st =
     (\<lparr>norm_weight_ref = length st, norm_bias_ref = length st + 1\<rparr>, st @ [Ones, Zeros])"

text \<open>
  \<open>SelfAttention\<close> (its buffer \<open>bias\<close>, the causal mask, is no parameter), \<open>MLP\<close> (its
  \<open>nn.GELU\<close> has no parameter), \<open>Block\<close>, and the list comprehension of \<open>n_layer\<close>
  blocks.
\<close>

record attention_module =
  am_c_attn :: linear_module
  am_c_proj :: linear_module

record mlp_module =
  mm_c_fc :: linear_module
  mm_c_proj :: linear_module

record block_module =
  bm_ln_1 :: layer_norm_module
  bm_ln_2 :: layer_norm_module
  bm_attn :: attention_module
  bm_mlp :: mlp_module

definition new_SelfAttention :: "GPTConfig \<Rightarrow> store \<Rightarrow> error + (attention_module \<times> store)" where
  "new_SelfAttention cfg st =
     (if n_head cfg = 0 then Inl ZeroDivisionError
      else if n_embd cfg mod n_head cfg \<noteq> 0 then Inl AssertionError
      else (let (attn_in, st) = new_Linear True st;
                (attn_out, st) = new_Linear True st
            in Inr (\<lparr>am_c_attn = attn_in, am_c_proj = attn_out\<lparr>scale_init := True\<rparr>\<rparr>, st)))"

definition new_MLP :: "store \<Rightarrow> mlp_module \<times> store" where
  "new_MLP st =
     (let (fc, st) = new_Linear True st;
          (proj, st) = new_Linear True st
      in (\<lparr>mm_c_fc = fc, mm_c_proj = proj\<lparr>scale_init := True\<rparr>\<rparr>, st))"

definition new_Block :: "GPTConfig \<Rightarrow> store \<Rightarrow> error + (block_module \<times> store)" where
  "new_Block cfg st =
     (let (norm1, st) = new_LayerNorm st;
          (norm2, st) = new_LayerNorm st
      in case new_SelfAttention cfg st of
           Inl e \<Rightarrow> Inl e
         | Inr (att, st) \<Rightarrow>
             (let (ff, st) = new_MLP st
              in Inr (\<lparr>bm_ln_1 = norm1, bm_ln_2 = norm2, bm_attn = att, bm_mlp = ff\<rparr>, st)))"

fun new_blocks :: "GPTConfig \<Rightarrow> nat \<Rightarrow> store \<Rightarrow> error + (block_module list \<times> store)" where
  "new_blocks cfg 0 st = Inr ([], st)"
| "new_blocks cfg (Suc n) st =
     (case new_Block cfg st of
        Inl e \<Rightarrow> Inl e
      | Inr (b, st) \<Rightarrow>
          (case new_blocks cfg n st of
             Inl e \<Rightarrow> Inl e
           | Inr (bs, st) \<Rightarrow> Inr (b # bs, st)))"

record gpt_module =
  gm_config :: GPTConfig
  gm_wte :: embedding_module
  gm_wpe :: embedding_module
  gm_h :: "block_module list"
  gm_ln_f :: layer_norm_module
  gm_lm_head :: linear_module

text \<open>
  \<open>_init_weights\<close>, on one module. The literal \<open>0.02\<close> is the double nearest to \<open>2/100\<close>;
  \<open>(2 * n_layer) ** -0.5\<close> converts the integer to a float and raises it to the power,
  which is taken to be rounded to the nearest double, and raises \<open>ZeroDivisionError\<close> on
  the base 0.

    def _init_weights(self, module):
        std = 0.02
        if isinstance(module, nn.Linear):
            if hasattr(module, 'NANOGPT_SCALE_INIT'):
                std *= (2*self.config.n_layer)**-0.5
            torch.nn.init.normal_(module.weight, mean=0, std=std)
            if module.bias is not None:
                torch.nn.init.zeros_(module.bias)
        elif isinstance(module, nn.Embedding):
            torch.nn.init.normal_(module.weight, mean=0, std=std)
\<close>

datatype module =
    Linear linear_module
  | Embedding embedding_module
  | LayerNorm layer_norm_module
  | Other

definition std0 :: real where
  "std0 = round_double (2 / 100)"

definition float_pow :: "real \<Rightarrow> real \<Rightarrow> real" where
  "float_pow x y = round_double (x powr y)"

definition scaled_std :: "GPTConfig \<Rightarrow> error + real" where
  "scaled_std cfg =
     (if 2 * n_layer cfg = 0 then Inl ZeroDivisionError
      else Inr (fmul std0 (float_pow (float_of_int (int (2 * n_layer cfg))) (- 0.5))))"

definition init_weights :: "GPTConfig \<Rightarrow> module \<Rightarrow> store \<Rightarrow> error + store" where
  "init_weights cfg md st =
     (case md of
        Linear l \<Rightarrow>
          (case (if scale_init l then scaled_std cfg else Inr std0) of
             Inl e \<Rightarrow> Inl e
           | Inr std \<Rightarrow>
               (let st = st[weight_ref l := Normal 0 std]
                in Inr (case bias_ref l of None \<Rightarrow> st | Some b \<Rightarrow> st[b := Zeros])))
      | Embedding e \<Rightarrow> Inr (st[emb_weight_ref e := Normal 0 std0])
      | LayerNorm n \<Rightarrow> Inr st
      | Other \<Rightarrow> Inr st)"

text \<open>
  \<open>self.apply(fn)\<close> calls \<open>fn\<close> on every module of the tree, the children of a module
  in the order of their registration and before the module itself. \<open>apply_order\<close> is
  that order for a \<open>GPT\<close>; the modules without a case in \<open>_init_weights\<close> (\<open>SelfAttention\<close>,
  \<open>GELU\<close>, \<open>MLP\<close>, \<open>Block\<close>, the \<open>ModuleList\<close>, the \<open>ModuleDict\<close> and the \<open>GPT\<close> itself) are
  \<open>Other\<close>.
\<close>

fun apply_init :: "GPTConfig \<Rightarrow> module list \<Rightarrow> store \<Rightarrow> error + store" where
  "apply_init cfg [] st = Inr st"
| "apply_init cfg (md # mds) st =
     (case init_weights cfg md st of Inl e \<Rightarrow> Inl e | Inr st \<Rightarrow> apply_init cfg mds st)"

definition block_apply_order :: "block_module \<Rightarrow> module list" where
  "block_apply_order b =
     [LayerNorm (bm_ln_1 b), LayerNorm (bm_ln_2 b),
      Linear (am_c_attn (bm_attn b)), Linear (am_c_proj (bm_attn b)), Other,
      Linear (mm_c_fc (bm_mlp b)), Linear (mm_c_proj (bm_mlp b)), Other, Other,
      Other]"

definition apply_order :: "gpt_module \<Rightarrow> module list" where
  "apply_order m =
     [Embedding (gm_wte m), Embedding (gm_wpe m)]
     @ concat (map block_apply_order (gm_h m))
     @ [Other, LayerNorm (gm_ln_f m), Other, Linear (gm_lm_head m), Other]"

text \<open>
  The constructor of \<open>GPT\<close>: the modules in the order of their creation, the assignment
  \<open>self.transformer.wte.weight = self.lm_head.weight\<close>, then
  \<open>self.apply(self._init_weights)\<close>.
\<close>

definition GPT_init :: "GPTConfig \<Rightarrow> error + (gpt_module \<times> store)" where
  "GPT_init cfg =
     (let (tok, st) = new_Embedding [];
          (pos, st) = new_Embedding st
      in case new_blocks cfg (n_layer cfg) st of
           Inl e \<Rightarrow> Inl e
         | Inr (blocks, st) \<Rightarrow>
             (let (norm, st) = new_LayerNorm st;
                  (head, st) = new_Linear False st;
                  tok = tok\<lparr>emb_weight_ref := weight_ref head\<rparr>;
                  m = \<lparr>gm_config = cfg, gm_wte = tok, gm_wpe = pos, gm_h = blocks,
                       gm_ln_f = norm, gm_lm_head = head\<rparr>
              in case apply_init cfg (apply_order m) st of
                   Inl e \<Rightarrow> Inl e
                 | Inr st \<Rightarrow> Inr (m, st)))"

subsection \<open>The parameters of the optimizer\<close>

text \<open>
  The parameters the optimizer holds. \<open>configure_optimizers\<close> collects them from
  \<open>self.named_parameters()\<close>, which lists the parameters of the modules of the tree, a
  module before its children, and yields a tensor that two modules share only once,
  at its first place; every parameter requires a gradient and is in one of the two
  groups. One \<open>optimizer.step()\<close> updates every tensor of the list in place;
  \<open>Updated k\<close> stands for what step \<open>k\<close> makes of the former content. The training loop
  calls \<open>optimizer.step()\<close> once per step and assigns no attribute of the model.
\<close>

definition linear_parameters :: "linear_module \<Rightarrow> addr list" where
  "linear_parameters l = weight_ref l # (case bias_ref l of None \<Rightarrow> [] | Some b \<Rightarrow> [b])"

definition norm_parameters :: "layer_norm_module \<Rightarrow> addr list" where
  "norm_parameters n = [norm_weight_ref n, norm_bias_ref n]"

definition block_parameters :: "block_module \<Rightarrow> addr list" where
  "block_parameters b =
     norm_parameters (bm_ln_1 b) @ norm_parameters (bm_ln_2 b)
     @ linear_parameters (am_c_attn (bm_attn b)) @ linear_parameters (am_c_proj (bm_attn b))
     @ linear_parameters (mm_c_fc (bm_mlp b)) @ linear_parameters (mm_c_proj (bm_mlp b))"

definition all_parameters :: "gpt_module \<Rightarrow> addr list" where
  "all_parameters m =
     [emb_weight_ref (gm_wte m), emb_weight_ref (gm_wpe m)]
     @ concat (map block_parameters (gm_h m))
     @ norm_parameters (gm_ln_f m) @ linear_parameters (gm_lm_head m)"

fun first_occurrences :: "addr list \<Rightarrow> addr list \<Rightarrow> addr list" where
  "first_occurrences seen [] = []"
| "first_occurrences seen (a # as) =
     (if a \<in> set seen then first_occurrences seen as
      else a # first_occurrences (a # seen) as)"

definition parameters :: "gpt_module \<Rightarrow> addr list" where
  "parameters m = first_occurrences [] (all_parameters m)"

definition optimizer_step :: "gpt_module \<Rightarrow> nat \<Rightarrow> store \<Rightarrow> store" where
  "optimizer_step m k st = fold (\<lambda>a st. st[a := Updated k (st ! a)]) (parameters m) st"

definition train :: "gpt_module \<Rightarrow> nat \<Rightarrow> store \<Rightarrow> store" where
  "train m n st = fold (optimizer_step m) [0..<n] st"

text \<open>
  Auxiliary notions of the proofs: the block whose twelve parameter tensors start at
  an address, the contents of these tensors after the constructor of the block, and
  the store after \<open>_init_weights\<close> has visited the modules of that block.
\<close>

definition block_at :: "addr \<Rightarrow> block_module" where
  "block_at a =
     \<lparr>bm_ln_1 = \<lparr>norm_weight_ref = a, norm_bias_ref = a + 1\<rparr>,
      bm_ln_2 = \<lparr>norm_weight_ref = a + 2, norm_bias_ref = a + 3\<rparr>,
      bm_attn =
        \<lparr>am_c_attn = \<lparr>weight_ref = a + 4, bias_ref = Some (a + 5), scale_init = False\<rparr>,
         am_c_proj = \<lparr>weight_ref = a + 6, bias_ref = Some (a + 7), scale_init = True\<rparr>\<rparr>,
      bm_mlp =
        \<lparr>mm_c_fc = \<lparr>weight_ref = a + 8, bias_ref = Some (a + 9), scale_init = False\<rparr>,
         mm_c_proj = \<lparr>weight_ref = a + 10, bias_ref = Some (a + 11), scale_init = True\<rparr>\<rparr>\<rparr>"

definition block_defaults :: "tensor list" where
  "block_defaults = [Ones, Zeros, Ones, Zeros] @ replicate 8 DefaultInit"

definition init_block_store :: "real \<Rightarrow> addr \<Rightarrow> store \<Rightarrow> store" where
  "init_block_store std a st =
     st[a + 4 := Normal 0 std0, a + 5 := Zeros, a + 6 := Normal 0 std, a + 7 := Zeros,
        a + 8 := Normal 0 std0, a + 9 := Zeros, a + 10 := Normal 0 std, a + 11 := Zeros]"

definition blocks_store :: "real \<Rightarrow> addr \<Rightarrow> nat \<Rightarrow> store \<Rightarrow> store" where
  "blocks_store std base n st = fold (\<lambda>i. init_block_store std (base + 12 * i)) [0..<n] st"

text \<open>The model and the store that the constructor returns, in closed form.\<close>

definition scaled_value :: "GPTConfig \<Rightarrow> real" where
  "scaled_value cfg = fmul std0 (float_pow (float_of_int (int (2 * n_layer cfg))) (- 0.5))"

definition constructed_module :: "GPTConfig \<Rightarrow> gpt_module" where
  "constructed_module cfg =
     \<lparr>gm_config = cfg,
      gm_wte = \<lparr>emb_weight_ref = 4 + 12 * n_layer cfg\<rparr>,
      gm_wpe = \<lparr>emb_weight_ref = 1\<rparr>,
      gm_h = map (\<lambda>i. block_at (2 + 12 * i)) [0..<n_layer cfg],
      gm_ln_f = \<lparr>norm_weight_ref = 2 + 12 * n_layer cfg, norm_bias_ref = 3 + 12 * n_layer cfg\<rparr>,
      gm_lm_head = \<lparr>weight_ref = 4 + 12 * n_layer cfg, bias_ref = None, scale_init = False\<rparr>\<rparr>"

definition constructed_store :: "GPTConfig \<Rightarrow> store" where
  "constructed_store cfg =
     (blocks_store (scaled_value cfg) 2 (n_layer cfg)
        (([DefaultInit, DefaultInit] @ concat (replicate (n_layer cfg) block_defaults)
            @ [Ones, Zeros, DefaultInit])
         [4 + 12 * n_layer cfg := Normal 0 std0, 1 := Normal 0 std0]))
     [4 + 12 * n_layer cfg := Normal 0 std0]"

section \<open>Properties\<close>

subsection \<open>Double-precision arithmetic\<close>

lemma two_powi_le_imp_le:
  assumes "(2::real) powi a \<le> 2 powi b"
  shows "a \<le> b"
proof (rule ccontr)
  assume "\<not> a \<le> b"
  then have "(2::real) powi b < 2 powi a"
    by (intro power_int_strict_increasing) simp_all
  with assms show False by linarith
qed

lemma float_exponent_iff:
  assumes "x \<noteq> 0"
  shows "float_exponent x = e \<longleftrightarrow> 2 powi e \<le> \<bar>x\<bar> \<and> \<bar>x\<bar> < 2 powi (e + 1)"
proof -
  have "(2::real) powr real_of_int e = 2 powi e"
    and "(2::real) powr real_of_int (e + 1) = 2 powi (e + 1)"
    by (simp_all add: powr_real_of_int' [of 2] del: of_int_add)
  then show ?thesis
    using assms floor_log_eq_powr_iff [of "\<bar>x\<bar>" 2 e]
    unfolding float_exponent_def by simp
qed

lemma float_exponent_eq:
  "2 powi e \<le> \<bar>x\<bar> \<Longrightarrow> \<bar>x\<bar> < 2 powi (e + 1) \<Longrightarrow> float_exponent x = e"
proof -
  assume a: "2 powi e \<le> \<bar>x\<bar>" and b: "\<bar>x\<bar> < 2 powi (e + 1)"
  have pos: "(0::real) < 2 powi e" by simp
  have "x \<noteq> 0"
  proof
    assume "x = 0"
    with a have "(2::real) powi e \<le> 0" by simp
    with pos show False by linarith
  qed
  then show ?thesis using a b by (simp add: float_exponent_iff)
qed

lemma float_exponent_bounds:
  assumes "x \<noteq> 0"
  shows "2 powi float_exponent x \<le> \<bar>x\<bar>" and "\<bar>x\<bar> < 2 powi (float_exponent x + 1)"
  using float_exponent_iff [OF assms, of "float_exponent x"] by simp_all

lemma ulp_pos: "0 < ulp p x"
  by (simp add: ulp_def)

lemma ulp_53: "ulp 53 x = 2 powi (float_exponent x - 52)"
  by (simp add: ulp_def)

lemma round_double_ulp:
  "round_double x = (if x = 0 then 0 else of_int (round_half_even (x / ulp 53 x)) * ulp 53 x)"
  by (simp add: round_double_def round_float_def)

lemma round_half_even_of_int: "round_half_even (of_int n) = n"
  by (simp add: round_half_even_def)

lemma round_half_even_error: "\<bar>of_int (round_half_even y) - y\<bar> \<le> 1 / 2"
  unfolding round_half_even_def Let_def by (auto simp: abs_le_iff)

lemma round_half_even_le: "y \<le> of_int n \<Longrightarrow> round_half_even y \<le> n"
  unfolding round_half_even_def Let_def
  by (auto simp: floor_le_iff)

lemma round_half_even_ge: "of_int n \<le> y \<Longrightarrow> n \<le> round_half_even y"
  unfolding round_half_even_def Let_def
  by (auto simp: le_floor_iff) linarith+


lemma round_float_exact:
  assumes "x / ulp p x = of_int n"
  shows "round_float p x = x"
proof (cases "x = 0")
  case True
  then show ?thesis by (simp add: round_float_def)
next
  case False
  have "round_float p x = of_int n * ulp p x"
    using False by (simp add: round_float_def assms round_half_even_of_int)
  also have "\<dots> = x / ulp p x * ulp p x"
    by (simp only: assms)
  also have "\<dots> = x"
    using ulp_pos [of p x] by simp
  finally show ?thesis .
qed

lemma scaled_abs_bounds:
  assumes "x \<noteq> 0"
  shows "2 ^ 52 \<le> \<bar>x / ulp 53 x\<bar>" and "\<bar>x / ulp 53 x\<bar> < 2 ^ 53"
proof -
  let ?e = "float_exponent x"
  have e: "(2::real) powi ?e = 2 ^ 52 * ulp 53 x"
    using power_int_add [of "2::real" 52 "?e - 52"] by (simp add: ulp_53)
  have e1: "(2::real) powi (?e + 1) = 2 ^ 53 * ulp 53 x"
    using power_int_add [of "2::real" 53 "?e - 52"] by (simp add: ulp_53 add.commute)
  have abs: "\<bar>x / ulp 53 x\<bar> = \<bar>x\<bar> / ulp 53 x"
    using ulp_pos [of 53 x] by simp
  show "2 ^ 52 \<le> \<bar>x / ulp 53 x\<bar>"
    using float_exponent_bounds(1) [OF assms] ulp_pos [of 53 x]
    unfolding abs e by (simp add: pos_le_divide_eq)
  show "\<bar>x / ulp 53 x\<bar> < 2 ^ 53"
    using float_exponent_bounds(2) [OF assms] ulp_pos [of 53 x]
    unfolding abs e1 by (simp add: pos_divide_less_eq)
qed

lemma round_float_scaled_int:
  assumes "1 \<le> p" and "\<bar>m\<bar> \<le> 2 ^ p"
  shows "round_float p (of_int m * 2 powi k) = of_int m * 2 powi k"
proof (cases "m = 0")
  case True
  then show ?thesis by (simp add: round_float_def)
next
  case False
  let ?x = "real_of_int m * 2 powi k"
  let ?e = "float_exponent ?x"
  let ?j = "k - ?e + int p - 1"
  have x0: "?x \<noteq> 0"
    using False by simp
  have absx: "\<bar>?x\<bar> = real_of_int \<bar>m\<bar> * 2 powi k"
    by (simp add: abs_mult)
  have quot: "?x / ulp p ?x = real_of_int m * 2 powi ?j"
  proof -
    have "(2::real) powi ?j = 2 powi k / 2 powi (?e - int p + 1)"
      using power_int_diff [of "2::real" k "?e - int p + 1"] by (simp add: algebra_simps)
    then show ?thesis by (simp add: ulp_def)
  qed
  have up: "\<bar>?x\<bar> \<le> 2 powi (int p + k)"
  proof -
    have "real_of_int \<bar>m\<bar> \<le> 2 ^ p"
      using assms(2) by (metis of_int_le_iff of_int_numeral of_int_power)
    then have "real_of_int \<bar>m\<bar> * 2 powi k \<le> 2 ^ p * 2 powi k"
      by (intro mult_right_mono) simp_all
    also have "\<dots> = 2 powi (int p + k)"
      using power_int_add [of "2::real" "int p" k] by simp
    finally show ?thesis unfolding absx .
  qed
  have "(2::real) powi ?e \<le> 2 powi (int p + k)"
    using float_exponent_bounds(1) [OF x0] up by linarith
  then have le: "?e \<le> int p + k"
    by (rule two_powi_le_imp_le)
  consider "0 \<le> ?j" | "?j = - 1"
    using le by linarith
  then have "\<exists>n. ?x / ulp p ?x = real_of_int n"
  proof cases
    case 1
    then have "(2::real) powi ?j = real_of_int (2 ^ nat ?j)"
      by (simp add: power_int_def)
    then have "?x / ulp p ?x = real_of_int (m * 2 ^ nat ?j)"
      unfolding quot by simp
    then show ?thesis by blast
  next
    case 2
    then have e: "?e = int p + k" by linarith
    have "(2::real) powi (int p + k) \<le> \<bar>?x\<bar>"
      using float_exponent_bounds(1) [OF x0] unfolding e [symmetric] .
    with up have "\<bar>?x\<bar> = 2 powi (int p + k)" by linarith
    then have "real_of_int \<bar>m\<bar> * 2 powi k = 2 ^ p * 2 powi k"
      using power_int_add [of "2::real" "int p" k] unfolding absx by simp
    then have "real_of_int \<bar>m\<bar> = 2 ^ p" by simp
    then have "\<bar>m\<bar> = 2 ^ p"
      by (metis of_int_eq_iff of_int_numeral of_int_power)
    then have m: "m = 2 ^ p \<or> m = - (2 ^ p)" by linarith
    obtain q where q: "p = Suc q"
      using assms(1) by (cases p) simp_all
    have "(2::int) ^ p = 2 * 2 ^ q"
      unfolding q by simp
    with m obtain r where r: "m = 2 * r"
      by (metis mult_minus_right)
    have "real_of_int m * 2 powi (- 1) = real_of_int r"
      unfolding r by (simp add: power_int_minus)
    then show ?thesis unfolding quot 2 by blast
  qed
  then show ?thesis
    using round_float_exact by blast
qed

lemma round_double_scaled_int:
  assumes "\<bar>m\<bar> \<le> 2 ^ 53"
  shows "round_double (of_int m * 2 powi k) = of_int m * 2 powi k"
  unfolding round_double_def using assms by (intro round_float_scaled_int) simp_all

lemma round_half_even_scaled_bound:
  assumes "x \<noteq> 0"
  shows "\<bar>round_half_even (x / ulp 53 x)\<bar> \<le> 2 ^ 53"
proof -
  define y where "y = x / ulp 53 x"
  have "\<bar>y\<bar> < 2 ^ 53"
    using scaled_abs_bounds(2) [OF assms] by (simp only: y_def)
  then have hi: "y \<le> real_of_int (2 ^ 53)" and lo: "real_of_int (- (2 ^ 53)) \<le> y"
    by simp_all
  have "round_half_even y \<le> 2 ^ 53"
    using hi by (rule round_half_even_le)
  moreover have "- (2 ^ 53) \<le> round_half_even y"
    using lo by (rule round_half_even_ge)
  ultimately show ?thesis unfolding y_def by (simp add: abs_le_iff)
qed

lemma is_double_round_double: "is_double (round_double x)"
proof (cases "x = 0")
  case True
  then show ?thesis by (simp add: is_double_def round_double_ulp)
next
  case False
  have "round_double x = real_of_int (round_half_even (x / ulp 53 x)) * 2 powi (float_exponent x - 52)"
    using False by (simp add: round_double_ulp ulp_53)
  then show ?thesis
    unfolding is_double_def
    using round_double_scaled_int [OF round_half_even_scaled_bound [OF False]] by simp
qed

lemma round_double_error: "\<bar>round_double x - x\<bar> \<le> 2 powi (- 53) * \<bar>x\<bar>"
proof (cases "x = 0")
  case True
  then show ?thesis by (simp add: round_double_ulp)
next
  case False
  let ?m = "round_half_even (x / ulp 53 x)"
  have "round_double x - x = (real_of_int ?m - x / ulp 53 x) * ulp 53 x"
    using False ulp_pos [of 53 x] by (simp add: round_double_ulp algebra_simps)
  then have "\<bar>round_double x - x\<bar> = \<bar>real_of_int ?m - x / ulp 53 x\<bar> * ulp 53 x"
    using ulp_pos [of 53 x] by (simp add: abs_mult)
  also have "\<dots> \<le> 1 / 2 * ulp 53 x"
    using round_half_even_error [of "x / ulp 53 x"] ulp_pos [of 53 x] by (intro mult_right_mono) simp_all
  also have "\<dots> = 2 powi (- 53) * 2 powi float_exponent x"
    using power_int_add [of "2::real" "- 53" "float_exponent x"]
      power_int_add [of "2::real" "- 52" "- 1"] 
    by (simp add: ulp_53 power_int_diff power_int_minus field_simps)
  also have "\<dots> \<le> 2 powi (- 53) * \<bar>x\<bar>"
    using float_exponent_bounds(1) [OF False] by (intro mult_left_mono) simp_all
  finally show ?thesis .
qed



lemma round_double_eval:
  assumes "2 powi e \<le> \<bar>x\<bar>" and "\<bar>x\<bar> < 2 powi (e + 1)"
  shows "round_double x = of_int (round_half_even (x / 2 powi (e - 52))) * 2 powi (e - 52)"
proof -
  have e: "float_exponent x = e"
    using assms by (rule float_exponent_eq)
  have pos: "(0::real) < 2 powi e" by simp
  have "x \<noteq> 0"
  proof
    assume "x = 0"
    with assms(1) have "(2::real) powi e \<le> 0" by simp
    with pos show False by linarith
  qed
  then show ?thesis by (simp add: round_double_ulp ulp_53 e)
qed




subsection \<open>The cosine at \<open>math.pi\<close>\<close>












subsection \<open>Learning-rate schedule\<close>

lemma round_double_0: "round_double 0 = 0"
  by (simp add: round_double_ulp)

lemma round_double_1: "round_double 1 = 1"
  using round_double_scaled_int [of 1 0] by simp

lemma round_double_2: "round_double 2 = 2"
  using round_double_scaled_int [of 2 0] by simp



























subsection \<open>Causal masking\<close>

lemma sum_list_upt_zero_tail:
  fixes f :: "nat \<Rightarrow> real"
  assumes "n \<le> T" and "\<And>j. n \<le> j \<Longrightarrow> j < T \<Longrightarrow> f j = 0"
  shows "sum_list (map f [0..<T]) = sum_list (map f [0..<n])"
proof -
  have "[0..<T] = [0..<n] @ [n..<T]"
    using assms(1) upt_add_eq_append [of 0 n "T - n"] by simp
  moreover have "sum_list (map f [n..<T]) = 0"
  proof -
    have "sum_list (map f [n..<T]) = sum_list (map (\<lambda>_. 0::real) [n..<T])"
      using assms(2) by (intro arg_cong [where f = sum_list] map_cong) simp_all
    also have "\<dots> = 0" by simp
    finally show ?thesis .
  qed
  ultimately show ?thesis by simp
qed

lemma exp_masked_causal_nth:
  assumes "j < length k"
  shows "exp_masked (causal_scores E q k i ! j) =
     (if j \<le> i then exp (dot (q ! i) (k ! j) * (1 / sqrt (real E))) else 0)"
  using assms by (simp add: causal_scores_def exp_masked_def)

lemma length_causal_scores: "length (causal_scores E q k i) = length k"
  by (simp add: causal_scores_def)

lemma causal_total:
  assumes "i < length k"
  shows "sum_list (map exp_masked (causal_scores E q k i)) = attn_total E q k i"
proof -
  let ?f = "\<lambda>j. if j \<le> i then exp (dot (q ! i) (k ! j) * (1 / sqrt (real E))) else 0"
  have "map exp_masked (causal_scores E q k i) = map ?f [0..<length k]"
    by (simp add: causal_scores_def exp_masked_def)
  then have "sum_list (map exp_masked (causal_scores E q k i)) = sum_list (map ?f [0..<length k])"
    by simp
  also have "\<dots> = sum_list (map ?f [0..<Suc i])"
    using assms by (intro sum_list_upt_zero_tail) simp_all
  also have "\<dots> = attn_total E q k i"
    unfolding attn_total_def by (intro arg_cong [where f = sum_list] map_cong) auto
  finally show ?thesis .
qed

lemma softmax_causal_nth:
  assumes "i < length k" "j < length k"
  shows "softmax_masked (causal_scores E q k i) ! j =
     (if j \<le> i then exp (dot (q ! i) (k ! j) * (1 / sqrt (real E))) / attn_total E q k i else 0)"
  using assms
  by (simp add: softmax_masked_def Let_def causal_total length_causal_scores exp_masked_causal_nth)

lemma weighted_values_causal:
  assumes "i < length k" "length v = length k"
  shows "weighted_values E (softmax_masked (causal_scores E q k i)) v = causal_row E q k v i"
proof -
  have "sum_list (map (\<lambda>j. softmax_masked (causal_scores E q k i) ! j * (v ! j) ! c) [0..<length v])
      = sum_list (map (\<lambda>j. exp (dot (q ! i) (k ! j) * (1 / sqrt (real E))) / attn_total E q k i
                                  * (v ! j) ! c) [0..<Suc i])" (is "?l = ?r") for c
  proof -
    let ?g = "\<lambda>j. softmax_masked (causal_scores E q k i) ! j * (v ! j) ! c"
    have "?l = sum_list (map ?g [0..<Suc i])"
      using assms by (intro sum_list_upt_zero_tail) (simp_all add: softmax_causal_nth)
    also have "\<dots> = ?r"
      using assms by (intro arg_cong [where f = sum_list] map_cong) (auto simp: softmax_causal_nth)
    finally show ?thesis .
  qed
  then show ?thesis
    by (simp add: weighted_values_def causal_row_def)
qed

lemma sdpa_causal:
  assumes "length k = length q" "length v = length q"
  shows "scaled_dot_product_attention E q k v = map (causal_row E q k v) [0..<length q]"
  unfolding scaled_dot_product_attention_def
  using assms by (intro map_cong) (simp_all add: weighted_values_causal)

lemma attn_total_take:
  assumes "i < n"
  shows "attn_total E (take n q) (take n k) i = attn_total E q k i"
  unfolding attn_total_def
  using assms by (intro arg_cong [where f = sum_list] map_cong) auto

lemma causal_row_take:
  assumes "i < n"
  shows "causal_row E (take n q) (take n k) (take n v) i = causal_row E q k v i"
  unfolding causal_row_def
  using assms
  by (intro map_cong arg_cong [where f = sum_list] refl) (auto simp: attn_total_take)

lemma sdpa_take:
  assumes "length k = length q" "length v = length q"
  shows "take n (scaled_dot_product_attention E q k v)
       = scaled_dot_product_attention E (take n q) (take n k) (take n v)"
proof -
  have "take n (map (causal_row E q k v) [0..<length q])
      = map (causal_row E q k v) [0..<min n (length q)]"
    by (simp add: take_map min_def)
  also have "\<dots> = map (causal_row E (take n q) (take n k) (take n v)) [0..<min n (length q)]"
    by (intro map_cong refl) (simp add: causal_row_take)
  finally show ?thesis
    using assms by (simp add: sdpa_causal min.commute)
qed

lemma self_attention_forward_take:
  "take n (self_attention_forward a x) = self_attention_forward a (take n x)"
proof -
  define C where "C = attn_n_embd a"
  define E where "E = C div attn_n_head a"
  define qkv where "qkv = map (linear_forward (c_attn a)) x"
  define q where "q = map (take C) qkv"
  define k where "k = map (\<lambda>u. take C (drop C u)) qkv"
  define v where "v = map (\<lambda>u. take C (drop (2 * C) u)) qkv"
  define head where "head = (\<lambda>q k v i. scaled_dot_product_attention E
      (map (head_slice E i) q) (map (head_slice E i) k) (map (head_slice E i) (v :: vec list)))"
  have len: "length q = length x" "length k = length x" "length v = length x"
    by (simp_all add: q_def k_def v_def qkv_def)
  have head_take: "head (take n q) (take n k) (take n v) i = take n (head q k v i)" for i
    unfolding head_def using len by (simp add: sdpa_take take_map)
  have lhs: "self_attention_forward a x =
      map (linear_forward (attn_c_proj a))
        (map (\<lambda>t. concat (map (\<lambda>y_i. y_i ! t) (map (head q k v) [0..<attn_n_head a]))) [0..<length x])"
    unfolding self_attention_forward_def Let_def head_def q_def k_def v_def qkv_def E_def C_def ..
  have rhs: "self_attention_forward a (take n x) =
      map (linear_forward (attn_c_proj a))
        (map (\<lambda>t. concat (map (\<lambda>y_i. y_i ! t)
            (map (head (take n q) (take n k) (take n v)) [0..<attn_n_head a])))
          [0..<length (take n x)])"
    unfolding self_attention_forward_def Let_def head_def q_def k_def v_def qkv_def E_def C_def
    by (simp only: take_map)
  have "take n (map (\<lambda>t. concat (map (\<lambda>y_i. y_i ! t) (map (head q k v) [0..<attn_n_head a]))) [0..<length x])
      = map (\<lambda>t. concat (map (\<lambda>y_i. y_i ! t) (map (head q k v) [0..<attn_n_head a]))) [0..<min n (length x)]"
    by (simp add: take_map min_def)
  also have "\<dots> = map (\<lambda>t. concat (map (\<lambda>y_i. y_i ! t)
            (map (head (take n q) (take n k) (take n v)) [0..<attn_n_head a])))
          [0..<min n (length x)]"
  proof (intro map_cong refl)
    fix t assume "t \<in> set [0..<min n (length x)]"
    then have "t < n" by simp
    then show "concat (map (\<lambda>y_i. y_i ! t) (map (head q k v) [0..<attn_n_head a]))
        = concat (map (\<lambda>y_i. y_i ! t) (map (head (take n q) (take n k) (take n v)) [0..<attn_n_head a]))"
      by (simp add: head_take comp_def)
  qed
  finally have eq: "take n (map (\<lambda>t. concat (map (\<lambda>y_i. y_i ! t) (map (head q k v) [0..<attn_n_head a]))) [0..<length x])
      = map (\<lambda>t. concat (map (\<lambda>y_i. y_i ! t)
            (map (head (take n q) (take n k) (take n v)) [0..<attn_n_head a])))
          [0..<min n (length x)]" .
  have len': "length (take n x) = min n (length x)"
    by simp
  show ?thesis
    unfolding lhs rhs len' by (subst take_map) (simp only: eq)
qed

lemma map2_vadd_take: "take n (map2 vadd x y) = map2 vadd (take n x) (take n y)"
  by (simp add: take_map take_zip)

lemma block_forward_take: "take n (block_forward b x) = block_forward b (take n x)"
  unfolding block_forward_def Let_def
  by (simp only: take_zip self_attention_forward_take take_map)

lemma fold_block_forward_take:
  "take n (fold block_forward bs x) = fold block_forward bs (take n x)"
  by (induction bs arbitrary: x) (simp_all add: block_forward_take)

lemma fold_map_blocks:
  "fold (\<lambda>b x. map (block_forward b) x) bs X = map (fold block_forward bs) X"
  by (induction bs arbitrary: X) simp_all

lemma gpt_body_rows: "gpt_body m pos_emb tok_emb = map (row_logits m pos_emb) tok_emb"
  by (simp add: gpt_body_def Let_def fold_map_blocks row_logits_def)

lemma row_logits_take:
  "take n (row_logits m pos_emb e) = row_logits m (take n pos_emb) (take n e)"
  unfolding row_logits_def
  by (simp only: take_map fold_block_forward_take take_zip)

lemma forward_Inr_logits:
  assumes "forward m idx tg = Inr (lg, l)"
  shows "lg = map (row_logits m (map (\<lambda>p. wpe m ! p) [0..<size1 idx]))
                (map (map (\<lambda>i. wte m ! nat i)) (rows idx))"
  using assms
  by (auto simp: forward_def Let_def embedding_def embedding2_def gpt_body_rows comp_def
      split: if_splits option.splits sum.splits)

text \<open>
  Claim C2. Whenever the model produces logits for two batches whose rows \<open>b\<close>
  agree on the token ids at all positions \<open>\<le> t\<close>, the logits of row \<open>b\<close> at
  position \<open>t\<close> are the same, whatever the token ids after \<open>t\<close> (and whatever the
  two sequence lengths and the other rows are).
\<close>

theorem causal_masking:
  assumes "forward m idx1 tg1 = Inr (lg1, l1)"
      and "forward m idx2 tg2 = Inr (lg2, l2)"
      and "b < length (rows idx1)" and "b < length (rows idx2)"
      and "t < size1 idx1" and "t < size1 idx2"
      and "take (Suc t) (rows idx1 ! b) = take (Suc t) (rows idx2 ! b)"
  shows "lg1 ! b ! t = lg2 ! b ! t"
proof -
  let ?pe = "\<lambda>idx. map (\<lambda>p. wpe m ! p) [0..<size1 idx]"
  let ?te = "\<lambda>idx :: int tensor2. map (\<lambda>i. wte m ! nat i) (rows idx ! b)"
  have r1: "lg1 ! b = row_logits m (?pe idx1) (?te idx1)"
    using forward_Inr_logits [OF assms(1)] assms(3) by simp
  have r2: "lg2 ! b = row_logits m (?pe idx2) (?te idx2)"
    using forward_Inr_logits [OF assms(2)] assms(4) by simp
  have pe: "take (Suc t) (?pe idx1) = take (Suc t) (?pe idx2)"
    using assms(5,6) by (simp add: take_map)
  have te: "take (Suc t) (?te idx1) = take (Suc t) (?te idx2)"
    using assms(7) by (simp add: take_map)
  have "take (Suc t) (lg1 ! b) = take (Suc t) (lg2 ! b)"
    unfolding r1 r2 row_logits_take pe te ..
  then have "take (Suc t) (lg1 ! b) ! t = take (Suc t) (lg2 ! b) ! t"
    by simp
  then show ?thesis by simp
qed

lemma list_all_in_range_upt: "list_all (in_range n) (map int [0..<T]) \<longleftrightarrow> T \<le> n"
  by (auto simp: list_all_iff in_range_def)

lemma forward_None:
  assumes "size1 idx \<le> block_size (config m)"
      and "size1 idx \<le> length (wpe m)"
      and "list_all (list_all (in_range (length (wte m)))) (rows idx)"
  shows "forward m idx None = Inr (gpt_logits m idx, None)"
  using assms
  by (simp add: forward_def Let_def embedding_def embedding2_def gpt_logits_def
      list_all_in_range_upt)

lemma tiny_forward_None:
  "forward tiny_gpt idx_a None = Inr (gpt_logits tiny_gpt idx_a, None)"
  "forward tiny_gpt idx_b None = Inr (gpt_logits tiny_gpt idx_b, None)"
  by (rule forward_None; simp add: tiny_gpt_def tiny_config_def idx_a_def idx_b_def in_range_def)+

theorem causal_masking_witness:
  "forward tiny_gpt idx_a None = Inr (gpt_logits tiny_gpt idx_a, None)
   \<and> forward tiny_gpt idx_b None = Inr (gpt_logits tiny_gpt idx_b, None)
   \<and> (0::nat) < length (rows idx_a) \<and> (0::nat) < length (rows idx_b)
   \<and> (0::nat) < size1 idx_a \<and> (0::nat) < size1 idx_b
   \<and> take (Suc 0) (rows idx_a ! 0) = take (Suc 0) (rows idx_b ! 0)
   \<and> rows idx_a ! 0 \<noteq> rows idx_b ! 0
   \<and> gpt_logits tiny_gpt idx_a ! 0 ! 0 = gpt_logits tiny_gpt idx_b ! 0 ! 0"
proof -
  have h3: "0 < length (rows idx_a)" and h4: "0 < length (rows idx_b)"
    and h5: "0 < size1 idx_a" and h6: "0 < size1 idx_b"
    and h7: "take (Suc 0) (rows idx_a ! 0) = take (Suc 0) (rows idx_b ! 0)"
    and ne: "rows idx_a ! 0 \<noteq> rows idx_b ! 0"
    by (simp_all add: idx_a_def idx_b_def)
  show ?thesis
    using causal_masking [OF tiny_forward_None(1) tiny_forward_None(2) h3 h4 h5 h6 h7]
      tiny_forward_None h3 h4 h5 h6 h7 ne
    by simp
qed

subsection \<open>Sequence-length validation\<close>

text \<open>
  Claim C7. A batch whose sequence length exceeds \<open>block_size\<close> makes \<open>forward\<close>
  fail with the assertion error, and no logits are returned; a batch whose sequence
  length is at most \<open>block_size\<close> never fails with that error.
\<close>

theorem sequence_length_validation:
  "(block_size (config m) < size1 idx \<longrightarrow> forward m idx targets = Inl AssertionError)
   \<and> (size1 idx \<le> block_size (config m) \<longrightarrow> forward m idx targets \<noteq> Inl AssertionError)"
  by (auto simp: forward_def Let_def embedding_def embedding2_def cross_entropy_def
      split: sum.splits option.splits if_splits)

theorem sequence_length_validation_witness:
  "block_size (config tiny_gpt) < size1 idx_long
   \<and> forward tiny_gpt idx_long None = Inl AssertionError
   \<and> forward tiny_gpt idx_long (Some idx_long) = Inl AssertionError
   \<and> size1 idx_a \<le> block_size (config tiny_gpt)
   \<and> forward tiny_gpt idx_a None \<noteq> Inl AssertionError
   \<and> forward tiny_gpt idx_a (Some idx_b) \<noteq> Inl AssertionError"
proof -
  have h1: "block_size (config tiny_gpt) < size1 idx_long"
    and h2: "size1 idx_a \<le> block_size (config tiny_gpt)"
    by (simp_all add: tiny_gpt_def tiny_config_def idx_long_def idx_a_def)
  show ?thesis
    using sequence_length_validation [of tiny_gpt idx_long None]
      sequence_length_validation [of tiny_gpt idx_long "Some idx_long"]
      sequence_length_validation [of tiny_gpt idx_a None]
      sequence_length_validation [of tiny_gpt idx_a "Some idx_b"] h1 h2
    by simp
qed

subsection \<open>The loss returned by \<open>forward\<close>\<close>

lemma sum_list_exp_pos:
  assumes "z \<noteq> []"
  shows "0 < sum_list (map exp (z :: real list))"
proof (cases z)
  case Nil
  with assms show ?thesis by simp
next
  case (Cons a as)
  have "0 \<le> sum_list (map exp as)"
    by (rule sum_list_nonneg) auto
  then show ?thesis
    using Cons by (simp add: add_pos_nonneg)
qed

lemma log_softmax_nth:
  assumes "nat t < length z"
  shows "- (log_softmax z ! nat t) = token_cross_entropy z t"
proof -
  have "z \<noteq> []" using assms by auto
  then have pos: "0 < sum_list (map exp z)" by (rule sum_list_exp_pos)
  have "ln (exp (z ! nat t) / sum_list (map exp z)) = z ! nat t - ln (sum_list (map exp z))"
    using pos by (simp add: ln_div)
  then show ?thesis
    using assms by (simp add: log_softmax_def token_cross_entropy_def Let_def)
qed

lemma zip_concat:
  assumes "length xss = length yss"
      and "\<And>i. i < length xss \<Longrightarrow> length (xss ! i) = length (yss ! i)"
  shows "zip (concat xss) (concat yss) = concat (map2 zip xss yss)"
  using assms
proof (induction xss yss rule: list_induct2)
  case Nil
  then show ?case by simp
next
  case (Cons x xs y ys)
  have "length x = length y"
    using Cons.prems [of 0] by simp
  moreover have "zip (concat xs) (concat ys) = concat (map2 zip xs ys)"
  proof (rule Cons.IH)
    fix i assume "i < length xs"
    then show "length (xs ! i) = length (ys ! i)"
      using Cons.prems [of "Suc i"] by simp
  qed
  ultimately show ?case by simp
qed

lemma map2_nth_conv:
  assumes "length xs = length ys"
  shows "map2 f xs ys = map (\<lambda>i. f (xs ! i) (ys ! i)) [0..<length xs]"
  using assms by (auto intro!: nth_equalityI)

lemma sum_list_map_concat:
  "sum_list (map f (concat zss)) = sum_list (map (\<lambda>zs. sum_list (map (f :: 'a \<Rightarrow> real) zs)) zss)"
  by (induction zss) simp_all

lemma cross_entropy_mean:
  assumes lg: "length lg = B" and tg: "length tg = B"
      and rows: "\<And>b. b < B \<Longrightarrow> length (lg ! b) = T \<and> length (tg ! b) = T"
      and ent: "\<And>b t. b < B \<Longrightarrow> t < T \<Longrightarrow> in_range V (tg ! b ! t) \<and> length (lg ! b ! t) = V"
  shows "cross_entropy V (concat lg) (concat tg) = Inr (mean_cross_entropy lg tg B T)"
proof -
  have zc: "zip (concat lg) (concat tg) = concat (map2 zip lg tg)"
    using lg tg rows by (intro zip_concat) simp_all
  have len_lg: "length (concat lg) = B * T"
  proof -
    have "sum_list (map length lg) = sum_list (map (\<lambda>_. T) lg)"
      using rows lg by (intro arg_cong [where f = sum_list] map_cong refl) (auto simp: in_set_conv_nth)
    also have "\<dots> = B * T"
      using lg by (simp add: sum_list_triv)
    finally show ?thesis by (simp add: length_concat)
  qed
  have len_tg: "length (concat tg) = B * T"
  proof -
    have "sum_list (map length tg) = sum_list (map (\<lambda>_. T) tg)"
      using rows tg by (intro arg_cong [where f = sum_list] map_cong refl) (auto simp: in_set_conv_nth)
    also have "\<dots> = B * T"
      using tg by (simp add: sum_list_triv)
    finally show ?thesis by (simp add: length_concat)
  qed
  have in_tg: "in_range V t" if "t \<in> set (concat tg)" for t
  proof -
    from that obtain r where "r \<in> set tg" "t \<in> set r" by auto
    then obtain b i where "b < B" "r = tg ! b" "i < length r" "t = r ! i"
      using tg by (auto simp: in_set_conv_nth)
    then show ?thesis using ent [of b i] rows [of b] by simp
  qed
  have all_ok: "list_all (\<lambda>t. t = - 100 \<or> in_range V t) (concat tg)"
    using in_tg by (auto simp: list_all_iff)
  have keep: "filter (\<lambda>(z, t). t \<noteq> - 100) (zip (concat lg) (concat tg)) = zip (concat lg) (concat tg)"
  proof -
    have "t \<noteq> - 100" if "(z, t) \<in> set (zip (concat lg) (concat tg))" for z t
    proof -
      have "t \<in> set (concat tg)" using that by (rule set_zip_rightD)
      then have "in_range V t" by (rule in_tg)
      then show ?thesis by (auto simp: in_range_def)
    qed
    then show ?thesis by (intro filter_True) auto
  qed
  let ?nll = "\<lambda>(z, t). - (log_softmax z ! nat t)"
  have row_sum: "sum_list (map ?nll (zip (lg ! b) (tg ! b)))
      = sum_list (map (\<lambda>t. token_cross_entropy (lg ! b ! t) (tg ! b ! t)) [0..<T])" if "b < B" for b
  proof -
    have e2: "map2 (\<lambda>z t. - (log_softmax z ! nat t)) (lg ! b) (tg ! b)
        = map (\<lambda>t. - (log_softmax (lg ! b ! t) ! nat (tg ! b ! t))) [0..<T]"
      using rows [OF that] map2_nth_conv [of "lg ! b" "tg ! b"] by simp
    have e3: "map (\<lambda>t. - (log_softmax (lg ! b ! t) ! nat (tg ! b ! t))) [0..<T]
        = map (\<lambda>t. token_cross_entropy (lg ! b ! t) (tg ! b ! t)) [0..<T]"
    proof (intro map_cong refl)
      fix t assume "t \<in> set [0..<T]"
      then have "t < T" by simp
      from ent [OF that this] have "nat (tg ! b ! t) < length (lg ! b ! t)"
        by (auto simp: in_range_def)
      then show "- (log_softmax (lg ! b ! t) ! nat (tg ! b ! t))
          = token_cross_entropy (lg ! b ! t) (tg ! b ! t)"
        by (rule log_softmax_nth)
    qed
    show ?thesis by (simp only: e2 e3)
  qed
  have "sum_list (map ?nll (zip (concat lg) (concat tg)))
      = sum_list (map (\<lambda>zs. sum_list (map ?nll zs)) (map2 zip lg tg))"
    unfolding zc by (rule sum_list_map_concat)
  also have "map (\<lambda>zs. sum_list (map ?nll zs)) (map2 zip lg tg)
      = map (\<lambda>b. sum_list (map ?nll (zip (lg ! b) (tg ! b)))) [0..<B]"
    using lg tg map2_nth_conv [of lg tg zip] by (simp add: comp_def)
  also have "\<dots> = map (\<lambda>b. sum_list (map (\<lambda>t. token_cross_entropy (lg ! b ! t) (tg ! b ! t)) [0..<T])) [0..<B]"
    by (intro map_cong refl) (simp add: row_sum)
  finally have total: "sum_list (map ?nll (zip (concat lg) (concat tg)))
      = sum_list (map (\<lambda>b. sum_list (map (\<lambda>t. token_cross_entropy (lg ! b ! t) (tg ! b ! t)) [0..<T])) [0..<B])" .
  have "cross_entropy V (concat lg) (concat tg)
      = Inr (sum_list (map ?nll (zip (concat lg) (concat tg))) / real (length (zip (concat lg) (concat tg))))"
    using all_ok len_lg len_tg by (simp add: cross_entropy_def Let_def keep)
  then show ?thesis
    using len_lg len_tg by (simp add: total mean_cross_entropy_def)
qed


lemma length_self_attention_forward: "length (self_attention_forward a x) = length x"
  by (simp add: self_attention_forward_def Let_def)

lemma length_block_forward: "length (block_forward b x) = length x"
  by (simp add: block_forward_def Let_def length_self_attention_forward)

lemma length_fold_block_forward: "length (fold block_forward bs x) = length x"
  by (induction bs arbitrary: x) (simp_all add: length_block_forward)

lemma length_row_logits: "length (row_logits m pos_emb e) = min (length pos_emb) (length e)"
  by (simp add: row_logits_def length_fold_block_forward)

lemma length_row_logits_nth:
  assumes "lin_bias (lm_head m) = None" and "t < length (row_logits m pos_emb e)"
  shows "length (row_logits m pos_emb e ! t) = length (lin_weight (lm_head m))"
proof -
  have "\<And>x. length (linear_forward (lm_head m) x) = length (lin_weight (lm_head m))"
    using assms(1) by (simp add: linear_forward_def)
  then show ?thesis
    using assms(2) by (simp add: row_logits_def)
qed

lemma gpt_logits_rows:
  "gpt_logits m idx =
     map (\<lambda>r. row_logits m (map (\<lambda>p. wpe m ! p) [0..<size1 idx]) (map (\<lambda>i. wte m ! nat i) r))
       (rows idx)"
  by (simp add: gpt_logits_def gpt_body_rows comp_def)

lemma forward_Some:
  assumes "size1 idx \<le> block_size (config m)"
      and "size1 idx \<le> length (wpe m)"
      and "list_all (list_all (in_range (length (wte m)))) (rows idx)"
  shows "forward m idx (Some tg) =
     (case cross_entropy (length (lin_weight (lm_head m))) (concat (gpt_logits m idx))
             (concat (rows tg)) of
        Inl e \<Rightarrow> Inl e
      | Inr loss \<Rightarrow> Inr (gpt_logits m idx, Some loss))"
  unfolding gpt_logits_def using assms
  by (simp add: forward_def Let_def embedding_def embedding2_def list_all_in_range_upt
      split: sum.splits)

text \<open>
  Claim C5. For a model with the shapes of its constructor and a batch of token ids
  in the vocabulary with \<open>T \<le> block_size\<close>: with targets of the same shape, ids in
  the vocabulary, \<open>forward\<close> returns the logits and the loss that is the sum of the
  cross-entropies of all entries \<open>(b, t)\<close> divided by \<open>B \<times> T\<close>; without targets it
  returns the same logits and \<open>None\<close>.
\<close>

theorem forward_loss_contract:
  assumes shapes: "constructed_shapes m"
      and idx: "wf_tensor2 idx" and tg: "wf_tensor2 tg"
      and same: "size0 tg = size0 idx" "size1 tg = size1 idx"
      and len: "size1 idx \<le> block_size (config m)"
      and ids: "list_all (list_all (in_range (vocab_size (config m)))) (rows idx)"
      and tgs: "list_all (list_all (in_range (vocab_size (config m)))) (rows tg)"
  shows "forward m idx (Some tg) =
           Inr (gpt_logits m idx,
                Some (mean_cross_entropy (gpt_logits m idx) (rows tg) (size0 idx) (size1 idx)))
       \<and> forward m idx None = Inr (gpt_logits m idx, None)"
proof
  let ?V = "vocab_size (config m)"
  let ?B = "size0 idx" and ?T = "size1 idx"
  have wte: "length (wte m) = ?V" and wpe: "length (wpe m) = block_size (config m)"
    and head: "length (lin_weight (lm_head m)) = ?V" and bias: "lin_bias (lm_head m) = None"
    using shapes by (simp_all add: constructed_shapes_def)
  have ok: "size1 idx \<le> length (wpe m)" "list_all (list_all (in_range (length (wte m)))) (rows idx)"
    using len ids by (simp_all add: wte wpe)
  show "forward m idx None = Inr (gpt_logits m idx, None)"
    using len ok by (rule forward_None)
  have B: "length (rows idx) = ?B" "length (rows tg) = ?B"
    using idx tg same by (simp_all add: wf_tensor2_def)
  have rT: "length (rows idx ! b) = ?T \<and> length (rows tg ! b) = ?T" if "b < ?B" for b
    using that idx tg same B by (simp add: wf_tensor2_def list_all_length)
  have lg_len: "length (gpt_logits m idx) = ?B"
    using B by (simp add: gpt_logits_rows)
  have lg_row: "length (gpt_logits m idx ! b) = ?T" if "b < ?B" for b
    using that B rT [OF that] by (simp add: gpt_logits_rows length_row_logits)
  have lg_vec: "length (gpt_logits m idx ! b ! t) = ?V" if "b < ?B" "t < ?T" for b t
  proof -
    let ?row = "row_logits m (map (\<lambda>p. wpe m ! p) [0..<?T]) (map (\<lambda>i. wte m ! nat i) (rows idx ! b))"
    have eq: "gpt_logits m idx ! b = ?row"
      using that(1) B by (simp add: gpt_logits_rows)
    have "t < length ?row"
      using lg_row [OF that(1)] that(2) eq by simp
    then have "length (?row ! t) = length (lin_weight (lm_head m))"
      by (rule length_row_logits_nth [OF bias])
    then show ?thesis by (simp add: eq head)
  qed
  have tg_ok: "in_range ?V (rows tg ! b ! t)" if "b < ?B" "t < ?T" for b t
    using that tgs B rT [OF that(1)] by (simp add: list_all_length)
  have "cross_entropy ?V (concat (gpt_logits m idx)) (concat (rows tg))
      = Inr (mean_cross_entropy (gpt_logits m idx) (rows tg) ?B ?T)"
  proof (rule cross_entropy_mean)
    show "length (gpt_logits m idx) = ?B" by (rule lg_len)
    show "length (rows tg) = ?B" by (rule B)
    show "length (gpt_logits m idx ! b) = ?T \<and> length (rows tg ! b) = ?T" if "b < ?B" for b
      using that lg_row rT by simp
    show "in_range ?V (rows tg ! b ! t) \<and> length (gpt_logits m idx ! b ! t) = ?V"
      if "b < ?B" "t < ?T" for b t
      using that tg_ok lg_vec by simp
  qed
  then show "forward m idx (Some tg) =
      Inr (gpt_logits m idx, Some (mean_cross_entropy (gpt_logits m idx) (rows tg) ?B ?T))"
    using forward_Some [OF len ok, of tg] by (simp add: head)
qed

theorem forward_loss_contract_witness:
  "constructed_shapes tiny_gpt \<and> wf_tensor2 idx_a \<and> wf_tensor2 idx_b
   \<and> size0 idx_b = size0 idx_a \<and> size1 idx_b = size1 idx_a
   \<and> size1 idx_a \<le> block_size (config tiny_gpt)
   \<and> list_all (list_all (in_range (vocab_size (config tiny_gpt)))) (rows idx_a)
   \<and> list_all (list_all (in_range (vocab_size (config tiny_gpt)))) (rows idx_b)
   \<and> forward tiny_gpt idx_a (Some idx_b) =
        Inr (gpt_logits tiny_gpt idx_a,
             Some (mean_cross_entropy (gpt_logits tiny_gpt idx_a) (rows idx_b) (size0 idx_a) (size1 idx_a)))
   \<and> forward tiny_gpt idx_a None = Inr (gpt_logits tiny_gpt idx_a, None)"
proof -
  have h1: "constructed_shapes tiny_gpt"
    by (simp add: constructed_shapes_def tiny_gpt_def tiny_config_def)
  have h2: "wf_tensor2 idx_a" and h3: "wf_tensor2 idx_b"
    by (simp_all add: wf_tensor2_def idx_a_def idx_b_def)
  have h4: "size0 idx_b = size0 idx_a" and h5: "size1 idx_b = size1 idx_a"
    by (simp_all add: idx_a_def idx_b_def)
  have h6: "size1 idx_a \<le> block_size (config tiny_gpt)"
    by (simp add: idx_a_def tiny_gpt_def tiny_config_def)
  have h7: "list_all (list_all (in_range (vocab_size (config tiny_gpt)))) (rows idx_a)"
    and h8: "list_all (list_all (in_range (vocab_size (config tiny_gpt)))) (rows idx_b)"
    by (simp_all add: idx_a_def idx_b_def tiny_gpt_def tiny_config_def in_range_def)
  show ?thesis
    using forward_loss_contract [OF h1 h2 h3 h4 h5 h6 h7 h8] h1 h2 h3 h4 h5 h6 h7 h8
    by simp
qed

subsection \<open>Generation\<close>






subsection \<open>Batch sampler\<close>

lemma next_batch_loader10_1:
  "next_batch loader10 =
     Inr ((\<lparr>size0 = 2, size1 = 2, rows = [[10, 11], [12, 13]]\<rparr>,
           \<lparr>size0 = 2, size1 = 2, rows = [[11, 12], [13, 14]]\<rparr>),
          loader10\<lparr>current := 4\<rparr>)"
  by (simp add: next_batch_def loader10_def view2_def as_rows_def Let_def upt_rec)

lemma next_batch_loader10_2:
  "next_batch (loader10\<lparr>current := 4\<rparr>) =
     Inr ((\<lparr>size0 = 2, size1 = 2, rows = [[14, 15], [16, 17]]\<rparr>,
           \<lparr>size0 = 2, size1 = 2, rows = [[15, 16], [17, 18]]\<rparr>),
          loader10)"
  by (simp add: next_batch_def loader10_def view2_def as_rows_def Let_def upt_rec)


text \<open>
  Claim C6 as stated fails. With ten tokens and \<open>B \<times> T = 4\<close>, the three calls
  \<open>\<lceil>10 / 4\<rceil>\<close> return the windows at the cursors 0, 4 and 0 again and leave the
  cursor at 4: the last token is never shown, neither as input nor as target. With
  three tokens the first call already raises, as the view of a slice that is too
  short.
\<close>

theorem next_batch_coverage_counterexample:
  "ceil_div (length (tokens loader10)) (loader_B loader10 * loader_T loader10) = 3
   \<and> next_batches 3 loader10 =
       Inr ([(\<lparr>size0 = 2, size1 = 2, rows = [[10, 11], [12, 13]]\<rparr>,
              \<lparr>size0 = 2, size1 = 2, rows = [[11, 12], [13, 14]]\<rparr>),
             (\<lparr>size0 = 2, size1 = 2, rows = [[14, 15], [16, 17]]\<rparr>,
              \<lparr>size0 = 2, size1 = 2, rows = [[15, 16], [17, 18]]\<rparr>),
             (\<lparr>size0 = 2, size1 = 2, rows = [[10, 11], [12, 13]]\<rparr>,
              \<lparr>size0 = 2, size1 = 2, rows = [[11, 12], [13, 14]]\<rparr>)],
            loader10\<lparr>current := 4\<rparr>)
   \<and> 19 \<in> set (tokens loader10)
   \<and> 19 \<notin> visited
       [(\<lparr>size0 = 2, size1 = 2, rows = [[10, 11], [12, 13]]\<rparr>,
         \<lparr>size0 = 2, size1 = 2, rows = [[11, 12], [13, 14]]\<rparr>),
        (\<lparr>size0 = 2, size1 = 2, rows = [[14, 15], [16, 17]]\<rparr>,
         \<lparr>size0 = 2, size1 = 2, rows = [[15, 16], [17, 18]]\<rparr>),
        (\<lparr>size0 = 2, size1 = 2, rows = [[10, 11], [12, 13]]\<rparr>,
         \<lparr>size0 = 2, size1 = 2, rows = [[11, 12], [13, 14]]\<rparr>)]
   \<and> next_batch loader3 = Inl RuntimeError"
proof (intro conjI)
  show "ceil_div (length (tokens loader10)) (loader_B loader10 * loader_T loader10) = 3"
    by (simp add: ceil_div_def loader10_def)
  have three: "(3::nat) = Suc (Suc (Suc 0))" by simp
  show "next_batches 3 loader10 =
       Inr ([(\<lparr>size0 = 2, size1 = 2, rows = [[10, 11], [12, 13]]\<rparr>,
              \<lparr>size0 = 2, size1 = 2, rows = [[11, 12], [13, 14]]\<rparr>),
             (\<lparr>size0 = 2, size1 = 2, rows = [[14, 15], [16, 17]]\<rparr>,
              \<lparr>size0 = 2, size1 = 2, rows = [[15, 16], [17, 18]]\<rparr>),
             (\<lparr>size0 = 2, size1 = 2, rows = [[10, 11], [12, 13]]\<rparr>,
              \<lparr>size0 = 2, size1 = 2, rows = [[11, 12], [13, 14]]\<rparr>)],
            loader10\<lparr>current := 4\<rparr>)"
    unfolding three by (simp add: next_batch_loader10_1 next_batch_loader10_2)
  show "19 \<in> set (tokens loader10)"
    by (simp add: loader10_def)
  show "19 \<notin> visited
       [(\<lparr>size0 = 2, size1 = 2, rows = [[10, 11], [12, 13]]\<rparr>,
         \<lparr>size0 = 2, size1 = 2, rows = [[11, 12], [13, 14]]\<rparr>),
        (\<lparr>size0 = 2, size1 = 2, rows = [[14, 15], [16, 17]]\<rparr>,
         \<lparr>size0 = 2, size1 = 2, rows = [[15, 16], [17, 18]]\<rparr>),
        (\<lparr>size0 = 2, size1 = 2, rows = [[10, 11], [12, 13]]\<rparr>,
         \<lparr>size0 = 2, size1 = 2, rows = [[11, 12], [13, 14]]\<rparr>)]"
    by (simp add: visited_def)
  show "next_batch loader3 = Inl RuntimeError"
    by (simp add: next_batch_def loader3_def view2_def Let_def)
qed

lemma next_batch_fits:
  assumes "current s + loader_B s * loader_T s + 1 \<le> length (tokens s)"
  shows "next_batch s =
     Inr ((as_rows (loader_B s) (loader_T s)
             (take (loader_B s * loader_T s) (drop (current s) (tokens s))),
           as_rows (loader_B s) (loader_T s)
             (take (loader_B s * loader_T s) (drop (Suc (current s)) (tokens s)))),
          s\<lparr>current := (if length (tokens s) \<le> current s + 2 * (loader_B s * loader_T s) + 1
                          then 0 else current s + loader_B s * loader_T s)\<rparr>)"
proof -
  let ?n = "loader_B s * loader_T s"
  let ?buff = "take (?n + 1) (drop (current s) (tokens s))"
  have b1: "butlast ?buff = take ?n (drop (current s) (tokens s))"
    using assms by (simp add: butlast_take)
  have b2: "tl ?buff = take ?n (drop (Suc (current s)) (tokens s))"
    by (simp add: tl_take drop_Suc tl_drop)
  have l1: "length (take ?n (drop (current s) (tokens s))) = ?n"
    using assms by simp
  have l2: "length (take ?n (drop (Suc (current s)) (tokens s))) = ?n"
    using assms by simp
  show ?thesis
    unfolding next_batch_def Let_def b1 b2 view2_def using l1 l2 by simp
qed

lemma as_rows_nth:
  assumes "b < nb" and "t < nt" and "length xs = nb * nt"
  shows "rows (as_rows nb nt xs) ! b ! t = xs ! (b * nt + t)"
proof -
  have "b * nt + nt \<le> nb * nt"
  proof -
    have "Suc b * nt \<le> nb * nt"
      using assms(1) by (intro mult_le_mono1) simp
    then show ?thesis by (simp add: add.commute)
  qed
  then have "b * nt + t < length xs"
    using assms(2,3) by simp
  then show ?thesis
    using assms(1,2) by (simp add: as_rows_def)
qed

lemma wf_as_rows:
  assumes "length xs = nb * nt"
  shows "wf_tensor2 (as_rows nb nt xs)"
proof -
  have "length (take nt (drop (b * nt) xs)) = nt" if "b < nb" for b
  proof -
    have "Suc b * nt \<le> nb * nt"
      using that by (intro mult_le_mono1) simp
    then show ?thesis using assms by simp
  qed
  then show ?thesis
    by (simp add: wf_tensor2_def as_rows_def list_all_iff)
qed

lemma next_batches_fits:
  assumes "current s + loader_B s * loader_T s + 1 \<le> length (tokens s)"
  shows "\<exists>r. next_batches n s = Inr r"
  using assms
proof (induction n arbitrary: s)
  case 0
  then show ?case by simp
next
  case (Suc n)
  let ?s' = "s\<lparr>current := (if length (tokens s) \<le> current s + 2 * (loader_B s * loader_T s) + 1
                          then 0 else current s + loader_B s * loader_T s)\<rparr>"
  have "current ?s' + loader_B ?s' * loader_T ?s' + 1 \<le> length (tokens ?s')"
    using Suc.prems by simp
  then obtain r where "next_batches n ?s' = Inr r"
    using Suc.IH by blast
  then show ?case
    by (simp add: next_batch_fits [OF Suc.prems] split: prod.splits)
qed

lemma concat_take_drop_upt:
  "concat (map (\<lambda>b. take nt (drop (b * nt) xs)) [0..<nb]) = take (nb * nt) xs"
proof (induction nb)
  case 0
  then show ?case by simp
next
  case (Suc nb)
  have "take (nb * nt) xs @ take nt (drop (nb * nt) xs) = take (nb * nt + nt) xs"
    by (simp only: take_add)
  then show ?case
    using Suc by (simp add: add.commute)
qed

lemma concat_rows_as_rows:
  assumes "length xs = nb * nt"
  shows "concat (rows (as_rows nb nt xs)) = xs"
  using assms by (simp add: as_rows_def concat_take_drop_upt)

lemma next_batches_prefix:
  assumes "current s + k * (loader_B s * loader_T s) + 1 < length (tokens s)"
  shows "\<exists>bs s'. next_batches k s = Inr (bs, s')
     \<and> batch_inputs bs = take (k * (loader_B s * loader_T s)) (drop (current s) (tokens s))
     \<and> batch_targets bs = take (k * (loader_B s * loader_T s)) (drop (Suc (current s)) (tokens s))"
  using assms
proof (induction k arbitrary: s)
  case 0
  then show ?case by (simp add: batch_inputs_def batch_targets_def)
next
  case (Suc k)
  let ?n = "loader_B s * loader_T s"
  let ?xs = "take ?n (drop (current s) (tokens s))"
  let ?ys = "take ?n (drop (Suc (current s)) (tokens s))"
  let ?x = "as_rows (loader_B s) (loader_T s) ?xs"
  let ?y = "as_rows (loader_B s) (loader_T s) ?ys"
  let ?s1 = "s\<lparr>current := (if length (tokens s) \<le> current s + 2 * ?n + 1
                          then 0 else current s + ?n)\<rparr>"
  have fits: "current s + ?n + 1 \<le> length (tokens s)"
    using Suc.prems by simp
  have nb: "next_batch s = Inr ((?x, ?y), ?s1)"
    using fits by (rule next_batch_fits)
  have cx: "concat (rows ?x) = ?xs" and cy: "concat (rows ?y) = ?ys"
    using fits by (simp_all add: concat_rows_as_rows)
  show ?case
  proof (cases k)
    case 0
    then show ?thesis
      by (simp add: nb batch_inputs_def batch_targets_def cx cy)
  next
    case (Suc j)
    have le: "?n \<le> k * ?n"
      unfolding Suc by simp
    have far: "current s + 2 * ?n + 1 < length (tokens s)"
      using le Suc.prems unfolding mult_Suc by linarith
    let ?s2 = "s\<lparr>current := current s + ?n\<rparr>"
    have s1: "?s1 = ?s2"
      using far by simp
    have nb2: "next_batch s = Inr ((?x, ?y), ?s2)"
      using nb unfolding s1 .
    have "current ?s2 + k * (loader_B ?s2 * loader_T ?s2) + 1 < length (tokens ?s2)"
      using Suc.prems by (simp add: add.assoc)
    from Suc.IH [OF this] obtain bs s' where
      r: "next_batches k ?s2 = Inr (bs, s')"
      and i: "batch_inputs bs = take (k * ?n) (drop (current s + ?n) (tokens s))"
      and t: "batch_targets bs = take (k * ?n) (drop (Suc (current s + ?n)) (tokens s))"
      by auto
    have "next_batches (Suc k) s = Inr ((?x, ?y) # bs, s')"
      by (simp add: nb2 r)
    moreover have "batch_inputs ((?x, ?y) # bs) = take (Suc k * ?n) (drop (current s) (tokens s))"
    proof -
      have "batch_inputs ((?x, ?y) # bs) = ?xs @ batch_inputs bs"
        by (simp add: batch_inputs_def cx)
      also have "\<dots> = take (?n + k * ?n) (drop (current s) (tokens s))"
        unfolding i by (simp add: take_add add.commute)
      finally show ?thesis by simp
    qed
    moreover have "batch_targets ((?x, ?y) # bs) = take (Suc k * ?n) (drop (Suc (current s)) (tokens s))"
    proof -
      have "batch_targets ((?x, ?y) # bs) = ?ys @ batch_targets bs"
        by (simp add: batch_targets_def cy)
      also have "\<dots> = take (?n + k * ?n) (drop (Suc (current s)) (tokens s))"
        unfolding t by (simp add: take_add add.commute)
      finally show ?thesis by simp
    qed
    ultimately show ?thesis by blast
  qed
qed

text \<open>
  Claim C6, amended. When the window at the cursor fits (\<open>current + B \<times> T + 1\<close> is at
  most the number of tokens, which at cursor 0 says that there are at least
  \<open>B \<times> T + 1\<close> tokens), \<open>next_batch\<close> raises nothing and returns \<open>B\<close> rows of \<open>T\<close>
  inputs, the tokens from the cursor on in order, with the targets the same window
  shifted by one token; it changes the cursor only, which it moves on by \<open>B \<times> T\<close> or
  back to 0: on when the window after the new position ends before the end of the
  sequence, back to 0 when that window would exceed the sequence; the window at the
  new cursor fits again, hence no number of calls in a row raises. The first \<open>k\<close>
  calls, when \<open>current + k \<times> B \<times> T + 1\<close> is less than the number of tokens, return in
  order the \<open>k \<times> B \<times> T\<close> tokens from the cursor on as inputs, and those from the
  position after the cursor on as targets.
\<close>

theorem next_batch_windows:
  assumes "current s + loader_B s * loader_T s + 1 \<le> length (tokens s)"
  shows "\<exists>x y s'. next_batch s = Inr ((x, y), s')
     \<and> wf_tensor2 x \<and> size0 x = loader_B s \<and> size1 x = loader_T s
     \<and> wf_tensor2 y \<and> size0 y = loader_B s \<and> size1 y = loader_T s
     \<and> (\<forall>b t. b < loader_B s \<and> t < loader_T s \<longrightarrow>
           rows x ! b ! t = tokens s ! (current s + b * loader_T s + t)
         \<and> rows y ! b ! t = tokens s ! (current s + b * loader_T s + t + 1))
     \<and> s' = s\<lparr>current := current s'\<rparr>
     \<and> (current s' = current s + loader_B s * loader_T s \<or> current s' = 0)
     \<and> (current s + 2 * (loader_B s * loader_T s) + 1 < length (tokens s)
          \<longrightarrow> current s' = current s + loader_B s * loader_T s)
     \<and> (length (tokens s) < current s + 2 * (loader_B s * loader_T s) + 1
          \<longrightarrow> current s' = 0)
     \<and> current s' + loader_B s * loader_T s + 1 \<le> length (tokens s)
     \<and> (\<forall>n. \<exists>r. next_batches n s = Inr r)
     \<and> (\<forall>k. current s + k * (loader_B s * loader_T s) + 1 < length (tokens s) \<longrightarrow>
           (\<exists>bs s''. next_batches k s = Inr (bs, s'')
              \<and> batch_inputs bs
                  = take (k * (loader_B s * loader_T s)) (drop (current s) (tokens s))
              \<and> batch_targets bs
                  = take (k * (loader_B s * loader_T s)) (drop (Suc (current s)) (tokens s))))"
proof -
  let ?n = "loader_B s * loader_T s"
  let ?xs = "take ?n (drop (current s) (tokens s))"
  let ?ys = "take ?n (drop (Suc (current s)) (tokens s))"
  let ?x = "as_rows (loader_B s) (loader_T s) ?xs"
  let ?y = "as_rows (loader_B s) (loader_T s) ?ys"
  let ?s' = "s\<lparr>current := (if length (tokens s) \<le> current s + 2 * ?n + 1
                          then 0 else current s + ?n)\<rparr>"
  have lx: "length ?xs = ?n" and ly: "length ?ys = ?n"
    using assms by simp_all
  have elems: "rows ?x ! b ! t = tokens s ! (current s + b * loader_T s + t)
      \<and> rows ?y ! b ! t = tokens s ! (current s + b * loader_T s + t + 1)"
    if "b < loader_B s \<and> t < loader_T s" for b t
  proof -
    have "Suc b * loader_T s \<le> ?n"
      using that by (intro mult_le_mono1) simp
    then have lt: "b * loader_T s + t < ?n"
      using that by simp
    have "rows ?x ! b ! t = ?xs ! (b * loader_T s + t)"
      using that lx by (intro as_rows_nth) simp_all
    moreover have "rows ?y ! b ! t = ?ys ! (b * loader_T s + t)"
      using that ly by (intro as_rows_nth) simp_all
    ultimately show ?thesis
      using lt assms by (simp add: add.assoc)
  qed
  have "next_batch s = Inr ((?x, ?y), ?s')"
    using assms by (rule next_batch_fits)
  moreover have "wf_tensor2 ?x" "wf_tensor2 ?y"
    using lx ly by (simp_all add: wf_as_rows)
  moreover have "size0 ?x = loader_B s" "size1 ?x = loader_T s"
    "size0 ?y = loader_B s" "size1 ?y = loader_T s"
    by (simp_all add: as_rows_def)
  moreover have "?s' = s\<lparr>current := current ?s'\<rparr>"
    by simp
  moreover have "current ?s' = current s + ?n \<or> current ?s' = 0"
    by simp
  moreover have "current s + 2 * ?n + 1 < length (tokens s) \<longrightarrow> current ?s' = current s + ?n"
    by simp
  moreover have "length (tokens s) < current s + 2 * ?n + 1 \<longrightarrow> current ?s' = 0"
    by simp
  moreover have "current ?s' + ?n + 1 \<le> length (tokens s)"
    using assms by simp
  moreover have "\<forall>n. \<exists>r. next_batches n s = Inr r"
    using next_batches_fits [OF assms] by blast
  moreover have "\<forall>k. current s + k * ?n + 1 < length (tokens s) \<longrightarrow>
           (\<exists>bs s''. next_batches k s = Inr (bs, s'')
              \<and> batch_inputs bs = take (k * ?n) (drop (current s) (tokens s))
              \<and> batch_targets bs = take (k * ?n) (drop (Suc (current s)) (tokens s)))"
    using next_batches_prefix by blast
  ultimately show ?thesis
    using elems by blast
qed

theorem next_batch_windows_witness:
  "current loader10 + loader_B loader10 * loader_T loader10 + 1 \<le> length (tokens loader10)
   \<and> (\<exists>x y s'. next_batch loader10 = Inr ((x, y), s') \<and> current s' = 4
          \<and> rows x ! 1 ! 0 = 12 \<and> rows y ! 1 ! 0 = 13)
   \<and> (\<exists>r. next_batches 7 loader10 = Inr r)
   \<and> (\<exists>bs s''. next_batches 2 loader10 = Inr (bs, s'')
          \<and> batch_inputs bs = [10, 11, 12, 13, 14, 15, 16, 17]
          \<and> batch_targets bs = [11, 12, 13, 14, 15, 16, 17, 18])"
proof -
  have h: "current loader10 + loader_B loader10 * loader_T loader10 + 1 \<le> length (tokens loader10)"
    by (simp add: loader10_def)
  from next_batch_windows [OF h] obtain x y s' where
    nb: "next_batch loader10 = Inr ((x, y), s')"
    and el: "\<forall>b t. b < loader_B loader10 \<and> t < loader_T loader10 \<longrightarrow>
           rows x ! b ! t = tokens loader10 ! (current loader10 + b * loader_T loader10 + t)
         \<and> rows y ! b ! t = tokens loader10 ! (current loader10 + b * loader_T loader10 + t + 1)"
    and far: "current loader10 + 2 * (loader_B loader10 * loader_T loader10) + 1
                 < length (tokens loader10)
          \<longrightarrow> current s' = current loader10 + loader_B loader10 * loader_T loader10"
    and all: "\<forall>n. \<exists>r. next_batches n loader10 = Inr r"
    and cov: "\<forall>k. current loader10 + k * (loader_B loader10 * loader_T loader10) + 1
                 < length (tokens loader10) \<longrightarrow>
           (\<exists>bs s''. next_batches k loader10 = Inr (bs, s'')
              \<and> batch_inputs bs
                  = take (k * (loader_B loader10 * loader_T loader10))
                      (drop (current loader10) (tokens loader10))
              \<and> batch_targets bs
                  = take (k * (loader_B loader10 * loader_T loader10))
                      (drop (Suc (current loader10)) (tokens loader10)))"
    by blast
  have "current s' = 4"
    using far by (simp add: loader10_def)
  moreover have "rows x ! 1 ! 0 = 12 \<and> rows y ! 1 ! 0 = 13"
    using el [rule_format, of 1 0] by (simp add: loader10_def)
  moreover have "\<exists>bs s''. next_batches 2 loader10 = Inr (bs, s'')
          \<and> batch_inputs bs = [10, 11, 12, 13, 14, 15, 16, 17]
          \<and> batch_targets bs = [11, 12, 13, 14, 15, 16, 17, 18]"
    using cov [rule_format, of 2] by (simp add: loader10_def)
  ultimately show ?thesis
    using h nb all by blast
qed

subsection \<open>Loss accumulator\<close>

lemma round_float_error: "\<bar>round_float p x - x\<bar> \<le> 2 powi (- int p) * \<bar>x\<bar>"
proof (cases "x = 0")
  case True
  then show ?thesis by (simp add: round_float_def)
next
  case False
  let ?m = "round_half_even (x / ulp p x)"
  have "round_float p x - x = (real_of_int ?m - x / ulp p x) * ulp p x"
    using False ulp_pos [of p x] by (simp add: round_float_def algebra_simps)
  then have "\<bar>round_float p x - x\<bar> = \<bar>real_of_int ?m - x / ulp p x\<bar> * ulp p x"
    using ulp_pos [of p x] by (simp add: abs_mult)
  also have "\<dots> \<le> 1 / 2 * ulp p x"
    using round_half_even_error [of "x / ulp p x"] ulp_pos [of p x]
    by (intro mult_right_mono) simp_all
  also have "\<dots> = 2 powi (- int p) * 2 powi float_exponent x"
  proof -
    have "ulp p x = 2 powi (- int p) * 2 powi float_exponent x * 2"
      using power_int_add [of "2::real" "- int p + float_exponent x" 1]
        power_int_add [of "2::real" "- int p" "float_exponent x"]
      by (simp add: ulp_def algebra_simps)
    then show ?thesis by simp
  qed
  also have "\<dots> \<le> 2 powi (- int p) * \<bar>x\<bar>"
    using float_exponent_bounds(1) [OF False] by (intro mult_left_mono) simp_all
  finally show ?thesis .
qed

lemma round_float_nonneg:
  assumes "0 \<le> x"
  shows "0 \<le> round_float p x"
proof (cases "x = 0")
  case True
  then show ?thesis by (simp add: round_float_def)
next
  case False
  have "real_of_int 0 \<le> x / ulp p x"
    using assms ulp_pos [of p x] by simp
  then have "0 \<le> round_half_even (x / ulp p x)"
    by (rule round_half_even_ge)
  then show ?thesis
    using False ulp_pos [of p x] by (simp add: round_float_def)
qed

lemma round_double_ge_double:
  assumes "is_double a" and "0 \<le> a" and "a \<le> y"
  shows "a \<le> round_double y"
proof (cases "a = 0")
  case True
  have "0 \<le> round_double y"
    using assms(2,3) unfolding round_double_def by (intro round_float_nonneg) simp
  then show ?thesis using True by simp
next
  case False
  then have a: "0 < a" and y: "0 < y" and y0: "y \<noteq> 0"
    using assms(2,3) by simp_all
  let ?ea = "float_exponent a" and ?ey = "float_exponent y"
  have ry: "round_double y = real_of_int (round_half_even (y / ulp 53 y)) * ulp 53 y"
    using y0 by (simp add: round_double_ulp)
  have "(2::real) powi ?ea \<le> 2 powi (?ey + 1)"
    using float_exponent_bounds(1) [OF False] float_exponent_bounds(2) [OF y0] assms(3) a y
    by simp
  then have "?ea \<le> ?ey + 1"
    by (rule two_powi_le_imp_le)
  moreover have "?ea \<noteq> ?ey + 1"
  proof
    assume "?ea = ?ey + 1"
    then have "y < a"
      using float_exponent_bounds(1) [OF False] float_exponent_bounds(2) [OF y0] a y by simp
    with assms(3) show False by simp
  qed
  ultimately consider "?ea = ?ey" | "?ea < ?ey"
    by linarith
  then show ?thesis
  proof cases
    case 1
    then have u: "ulp 53 a = ulp 53 y"
      by (simp add: ulp_def)
    have "a = real_of_int (round_half_even (a / ulp 53 a)) * ulp 53 a"
      using assms(1) False by (simp add: is_double_def round_double_ulp)
    then have "a / ulp 53 y = real_of_int (round_half_even (a / ulp 53 a))"
      using ulp_pos [of 53 y] unfolding u by (simp add: field_simps)
    moreover have "a / ulp 53 y \<le> y / ulp 53 y"
      using assms(3) ulp_pos [of 53 y] by (simp add: divide_right_mono)
    ultimately have "round_half_even (a / ulp 53 a) \<le> round_half_even (y / ulp 53 y)"
      by (intro round_half_even_ge) simp
    then have "real_of_int (round_half_even (a / ulp 53 a)) * ulp 53 y
        \<le> real_of_int (round_half_even (y / ulp 53 y)) * ulp 53 y"
      using ulp_pos [of 53 y] by (intro mult_right_mono) simp_all
    moreover have "a = real_of_int (round_half_even (a / ulp 53 a)) * ulp 53 y"
      using assms(1) False unfolding u [symmetric] by (simp add: is_double_def round_double_ulp)
    ultimately show ?thesis
      unfolding ry by simp
  next
    case 2
    have "a < 2 powi (?ea + 1)"
      using float_exponent_bounds(2) [OF False] a by simp
    also have "\<dots> \<le> 2 powi ?ey"
      using 2 by (intro power_int_increasing) simp_all
    finally have lt: "a < 2 powi ?ey" .
    have "real_of_int (2 ^ 52) \<le> y / ulp 53 y"
      using scaled_abs_bounds(1) [OF y0] y ulp_pos [of 53 y] by simp
    then have "2 ^ 52 \<le> round_half_even (y / ulp 53 y)"
      by (rule round_half_even_ge)
    then have "real_of_int (2 ^ 52) \<le> real_of_int (round_half_even (y / ulp 53 y))"
      by (simp only: of_int_le_iff)
    then have "2 ^ 52 * ulp 53 y \<le> round_double y"
      unfolding ry using ulp_pos [of 53 y] by (intro mult_right_mono) simp_all
    moreover have "(2::real) powi ?ey = 2 ^ 52 * ulp 53 y"
      using power_int_add [of "2::real" 52 "?ey - 52"] by (simp add: ulp_53)
    ultimately show ?thesis
      using lt by simp
  qed
qed

lemma float_sum_append: "float_sum (xs @ ys) acc = float_sum ys (float_sum xs acc)"
  by (simp add: float_sum_def)

lemma float_sum_snoc: "float_sum (xs @ [c]) acc = fadd (float_sum xs acc) c"
  by (simp add: float_sum_def)

lemma float_sum_error:
  "\<bar>float_sum cs 0 - sum_list cs\<bar>
     \<le> ((1 + 2 powi (- 53)) ^ length cs - 1) * sum_list (map abs cs)"
proof (induction cs rule: rev_induct)
  case Nil
  then show ?case by (simp add: float_sum_def)
next
  case (snoc c cs)
  define u :: real where "u = 2 powi (- 53)"
  define S where "S = float_sum cs 0"
  define E where "E = ((1 + u) ^ length cs - 1) * sum_list (map abs cs)"
  define A where "A = sum_list (map abs cs)"
  have u: "0 \<le> u"
    by (simp add: u_def)
  have A: "0 \<le> A"
    unfolding A_def by (rule sum_list_nonneg) auto
  have k: "0 \<le> (1 + u) ^ length cs - 1"
    using u by (simp add: one_le_power) 
  have ih: "\<bar>S - sum_list cs\<bar> \<le> ((1 + u) ^ length cs - 1) * A"
    using snoc unfolding S_def u_def A_def .
  have abs_sum: "\<bar>sum_list cs\<bar> \<le> A"
    unfolding A_def by (rule sum_list_abs)
  have r: "\<bar>fadd S c - (S + c)\<bar> \<le> u * \<bar>S + c\<bar>"
    unfolding fadd_def u_def using round_double_error [of "S + c"] .
  have "\<bar>S + c\<bar> \<le> \<bar>S - sum_list cs\<bar> + \<bar>sum_list cs\<bar> + \<bar>c\<bar>"
    by linarith
  also have "\<dots> \<le> ((1 + u) ^ length cs - 1) * A + A + \<bar>c\<bar>"
    using ih abs_sum by linarith
  also have "\<dots> = (1 + u) ^ length cs * A + \<bar>c\<bar>"
    by (simp add: algebra_simps)
  finally have "u * \<bar>S + c\<bar> \<le> u * ((1 + u) ^ length cs * A + \<bar>c\<bar>)"
    using u by (intro mult_left_mono) simp_all
  with r have r': "\<bar>fadd S c - (S + c)\<bar> \<le> u * ((1 + u) ^ length cs * A + \<bar>c\<bar>)"
    by linarith
  have "\<bar>fadd S c - (sum_list cs + c)\<bar> \<le> \<bar>fadd S c - (S + c)\<bar> + \<bar>S - sum_list cs\<bar>"
    by linarith
  also have "\<dots> \<le> u * ((1 + u) ^ length cs * A + \<bar>c\<bar>) + ((1 + u) ^ length cs - 1) * A"
    using r' ih by linarith
  also have "\<dots> = ((1 + u) ^ Suc (length cs) - 1) * A + u * \<bar>c\<bar>"
    by (simp add: algebra_simps)
  also have "\<dots> \<le> ((1 + u) ^ Suc (length cs) - 1) * A + ((1 + u) ^ Suc (length cs) - 1) * \<bar>c\<bar>"
  proof -
    have "1 + u \<le> (1 + u) ^ Suc (length cs)"
      using u by (intro self_le_power) simp_all
    then have "u \<le> (1 + u) ^ Suc (length cs) - 1"
      by simp
    then have "u * \<bar>c\<bar> \<le> ((1 + u) ^ Suc (length cs) - 1) * \<bar>c\<bar>"
      by (intro mult_right_mono) simp_all
    then show ?thesis by simp
  qed
  also have "\<dots> = ((1 + u) ^ Suc (length cs) - 1) * (A + \<bar>c\<bar>)"
    by (simp add: algebra_simps)
  finally show ?case
    unfolding float_sum_snoc S_def [symmetric] by (simp add: u_def A_def)
qed

lemma round_single_of_nat:
  assumes "G \<le> 2 ^ 24"
  shows "round_single (real G) = real G"
proof -
  have "int G \<le> int (2 ^ 24)"
    using assms by (rule of_nat_mono)
  then have "\<bar>int G\<bar> \<le> 2 ^ 24"
    by simp
  then have "round_float 24 (real_of_int (int G) * 2 powi 0) = real_of_int (int G) * 2 powi 0"
    by (intro round_float_scaled_int) simp_all
  then show ?thesis
    by (simp add: round_single_def)
qed


lemma mikro_steps_float_sum:
  "mikro_steps G (loss s) acc = float_sum (contributions G loss s) acc"
  by (simp add: mikro_steps_def float_sum_def contributions_def fold_map comp_def)

lemma run_contributions_Suc:
  "run_contributions G loss (Suc n) = run_contributions G loss n @ contributions G loss n"
  by (simp add: run_contributions_def)

lemma train_step_float_sum:
  "train_step G loss s st =
     \<lparr>loss_accum = float_sum (contributions G loss s) (loss_accum st),
      printed = printed st @ [float_sum (contributions G loss s) (loss_accum st)]\<rparr>"
  by (simp add: train_step_def Let_def mikro_steps_float_sum)

lemma fold_train_step:
  "fold (train_step G loss) [0..<n] st =
     \<lparr>loss_accum = float_sum (run_contributions G loss n) (loss_accum st),
      printed = printed st
        @ map (\<lambda>s. float_sum (run_contributions G loss (Suc s)) (loss_accum st)) [0..<n]\<rparr>"
proof (induction n)
  case 0
  then show ?case by (simp add: run_contributions_def float_sum_def)
next
  case (Suc n)
  let ?st = "fold (train_step G loss) [0..<n] st"
  have step: "fold (train_step G loss) [0..<Suc n] st = train_step G loss n ?st"
    by simp
  have ts: "fold (train_step G loss) [0..<Suc n] st =
      \<lparr>loss_accum = float_sum (contributions G loss n) (loss_accum ?st),
       printed = printed ?st @ [float_sum (contributions G loss n) (loss_accum ?st)]\<rparr>"
    unfolding step by (rule train_step_float_sum)
  have acc: "loss_accum ?st = float_sum (run_contributions G loss n) (loss_accum st)"
    and pr: "printed ?st = printed st
        @ map (\<lambda>s. float_sum (run_contributions G loss (Suc s)) (loss_accum st)) [0..<n]"
    unfolding Suc by simp_all
  have app: "float_sum (contributions G loss n) (float_sum (run_contributions G loss n) (loss_accum st))
      = float_sum (run_contributions G loss (Suc n)) (loss_accum st)"
    by (simp only: run_contributions_Suc float_sum_append)
  show ?case
    unfolding ts acc pr app by simp
qed

lemma train_loop_printed:
  "printed (train_loop G loss n) = map (\<lambda>s. float_sum (run_contributions G loss (Suc s)) 0) [0..<n]"
  by (simp add: train_loop_def fold_train_step)

lemma printed_nth:
  assumes "s < n"
  shows "printed (train_loop G loss n) ! s = float_sum (run_contributions G loss (Suc s)) 0"
  using assms by (simp add: train_loop_printed)


lemma round_single_error: "\<bar>round_single x - x\<bar> \<le> 2 powi (- 24) * \<bar>x\<bar>"
  unfolding round_single_def using round_float_error [of 24 x] by simp

lemma sum_list_round_single_error:
  "\<bar>sum_list (map round_single xs) - sum_list xs\<bar> \<le> 2 powi (- 24) * sum_list (map abs xs)"
proof (induction xs)
  case Nil
  then show ?case by simp
next
  case (Cons x xs)
  define v :: real where "v = 2 powi (- 24)"
  define A where "A = sum_list (map round_single xs)"
  define B where "B = sum_list xs"
  define W where "W = sum_list (map abs xs)"
  have x: "\<bar>round_single x - x\<bar> \<le> v * \<bar>x\<bar>"
    unfolding v_def by (rule round_single_error)
  have ih: "\<bar>A - B\<bar> \<le> v * W"
    using Cons unfolding v_def A_def B_def W_def .
  have "\<bar>(round_single x + A) - (x + B)\<bar> \<le> \<bar>round_single x - x\<bar> + \<bar>A - B\<bar>"
    by linarith
  also have "\<dots> \<le> v * \<bar>x\<bar> + v * W"
    using x ih by linarith
  also have "\<dots> = v * (\<bar>x\<bar> + W)"
    by (simp add: algebra_simps)
  finally show ?case
    unfolding v_def A_def B_def W_def by simp
qed

lemma sum_list_abs_round_single:
  "sum_list (map abs (map round_single xs)) \<le> (1 + 2 powi (- 24)) * sum_list (map abs xs)"
proof (induction xs)
  case Nil
  then show ?case by simp
next
  case (Cons x xs)
  define v :: real where "v = 2 powi (- 24)"
  define A where "A = sum_list (map abs (map round_single xs))"
  define W where "W = sum_list (map abs xs)"
  have "\<bar>round_single x - x\<bar> \<le> v * \<bar>x\<bar>"
    unfolding v_def by (rule round_single_error)
  then have x: "\<bar>round_single x\<bar> \<le> \<bar>x\<bar> + v * \<bar>x\<bar>"
    by linarith
  have ih: "A \<le> (1 + v) * W"
    using Cons unfolding v_def A_def W_def .
  have "\<bar>round_single x\<bar> + A \<le> (\<bar>x\<bar> + v * \<bar>x\<bar>) + (1 + v) * W"
    using x ih by linarith
  also have "\<dots> = (1 + v) * (\<bar>x\<bar> + W)"
    by (simp add: algebra_simps)
  finally show ?case
    unfolding v_def A_def W_def by simp
qed

lemma sum_list_concat_real: "sum_list (concat xss) = sum_list (map sum_list (xss :: real list list))"
  by (induction xss) simp_all

lemma contributions_fun:
  "contributions G loss =
     (\<lambda>s. map (\<lambda>m. round_single (loss s m / round_single (real G))) [0..<G])"
  by (rule ext) (simp add: contributions_def)

lemma sum_list_map_upt: "sum_list (map f [0..<n]) = (\<Sum>i<n. f i)"
  by (simp add: interv_sum_list_conv_sum_set_nat atLeast0LessThan)

lemma float_sum_rounded_error:
  "\<bar>float_sum (map round_single xs) 0 - sum_list xs\<bar>
     \<le> (((1 + 2 powi (- 53)) ^ length xs - 1) * (1 + 2 powi (- 24)) + 2 powi (- 24))
         * sum_list (map abs xs)"
proof -
  define k :: real where "k = (1 + 2 powi (- 53)) ^ length xs - 1"
  define W where "W = sum_list (map abs xs)"
  have k: "0 \<le> k"
    unfolding k_def by (simp add: one_le_power)
  have "\<bar>float_sum (map round_single xs) 0 - sum_list (map round_single xs)\<bar>
      \<le> k * sum_list (map abs (map round_single xs))"
    unfolding k_def using float_sum_error [of "map round_single xs"] by simp
  also have "\<dots> \<le> k * ((1 + 2 powi (- 24)) * W)"
    unfolding W_def using k by (intro mult_left_mono sum_list_abs_round_single)
  finally have a: "\<bar>float_sum (map round_single xs) 0 - sum_list (map round_single xs)\<bar>
      \<le> k * (1 + 2 powi (- 24)) * W"
    by (simp add: mult.assoc)
  have b: "\<bar>sum_list (map round_single xs) - sum_list xs\<bar> \<le> 2 powi (- 24) * W"
    unfolding W_def by (rule sum_list_round_single_error)
  have "\<bar>float_sum (map round_single xs) 0 - sum_list xs\<bar>
      \<le> k * (1 + 2 powi (- 24)) * W + 2 powi (- 24) * W"
    using a b by linarith
  then show ?thesis
    unfolding k_def W_def by (simp add: algebra_simps)
qed

lemma run_contributions_exact:
  assumes "G \<le> 2 ^ 24"
  shows "run_contributions G loss n =
     map round_single (concat (map (\<lambda>s. map (\<lambda>m. loss s m / real G) [0..<G]) [0..<n]))"
  by (simp add: run_contributions_def contributions_fun round_single_of_nat [OF assms]
      map_concat comp_def)

lemma exact_contributions_facts:
  "sum_list (concat (map (\<lambda>s. map (\<lambda>m. loss s m / real G) [0..<G]) [0..<n]))
     = (\<Sum>s<n. mean_loss G loss s)"
  "sum_list (map abs (concat (map (\<lambda>s. map (\<lambda>m. loss s m / real G) [0..<G]) [0..<n])))
     = (\<Sum>s<n. \<Sum>m<G. \<bar>loss s m\<bar>) / real G"
  "length (concat (map (\<lambda>s. map (\<lambda>m. (loss s m / real G)::real) [0..<G]) [0..<n])) = n * G"
proof -
  show "sum_list (concat (map (\<lambda>s. map (\<lambda>m. loss s m / real G) [0..<G]) [0..<n]))
     = (\<Sum>s<n. mean_loss G loss s)"
    by (simp add: sum_list_concat_real comp_def sum_list_map_upt mean_loss_def sum_divide_distrib)
  show "sum_list (map abs (concat (map (\<lambda>s. map (\<lambda>m. loss s m / real G) [0..<G]) [0..<n])))
     = (\<Sum>s<n. \<Sum>m<G. \<bar>loss s m\<bar>) / real G"
    by (simp add: map_concat sum_list_concat_real comp_def sum_list_map_upt sum_divide_distrib)
  show "length (concat (map (\<lambda>s. map (\<lambda>m. (loss s m / real G)::real) [0..<G]) [0..<n])) = n * G"
    by (simp add: length_concat comp_def sum_list_triv)
qed

lemma recorded_error:
  assumes "G \<le> 2 ^ 24"
  shows "\<bar>float_sum (run_contributions G loss n) 0 - (\<Sum>s<n. mean_loss G loss s)\<bar>
     \<le> (((1 + 2 powi (- 53)) ^ (n * G) - 1) * (1 + 2 powi (- 24)) + 2 powi (- 24))
         * ((\<Sum>s<n. \<Sum>m<G. \<bar>loss s m\<bar>) / real G)"
  using float_sum_rounded_error
    [of "concat (map (\<lambda>s. map (\<lambda>m. loss s m / real G) [0..<G]) [0..<n])"]
  unfolding run_contributions_exact [OF assms] exact_contributions_facts .

lemma is_double_0: "is_double 0"
  by (simp add: is_double_def round_double_0)

lemma float_sum_ge:
  assumes "is_double a" and "0 \<le> a" and "\<forall>c\<in>set cs. 0 \<le> c"
  shows "a \<le> float_sum cs a \<and> is_double (float_sum cs a)"
  using assms
proof (induction cs arbitrary: a)
  case Nil
  then show ?case by (simp add: float_sum_def)
next
  case (Cons c cs)
  have c: "0 \<le> c" and cs: "\<forall>c\<in>set cs. 0 \<le> c"
    using Cons.prems(3) by simp_all
  have ge: "a \<le> fadd a c"
    unfolding fadd_def using Cons.prems(1,2) c by (intro round_double_ge_double) simp_all
  have dbl: "is_double (fadd a c)"
    unfolding fadd_def by (rule is_double_round_double)
  have "fadd a c \<le> float_sum cs (fadd a c) \<and> is_double (float_sum cs (fadd a c))"
    using dbl ge Cons.prems(2) cs by (intro Cons.IH) simp_all
  moreover have "float_sum (c # cs) a = float_sum cs (fadd a c)"
    by (simp add: float_sum_def)
  ultimately show ?case
    using ge by simp
qed

lemma contributions_nonneg:
  assumes "\<forall>s m. 0 \<le> loss s m"
  shows "\<forall>c\<in>set (contributions G loss s). 0 \<le> c"
proof -
  have "0 \<le> round_single (real G)"
    unfolding round_single_def by (intro round_float_nonneg) simp
  then have "0 \<le> round_single (loss s m / round_single (real G))" for m
    unfolding round_single_def [of "loss s m / round_single (real G)"]
    using assms by (intro round_float_nonneg divide_nonneg_nonneg) simp_all
  then show ?thesis
    by (auto simp: contributions_def)
qed

lemma recorded_mono_step:
  assumes "\<forall>s m. 0 \<le> loss s m"
  shows "0 \<le> float_sum (run_contributions G loss n) 0
       \<and> is_double (float_sum (run_contributions G loss n) 0)
       \<and> float_sum (run_contributions G loss n) 0 \<le> float_sum (run_contributions G loss (Suc n)) 0"
proof (induction n)
  case 0
  have "0 \<le> float_sum (contributions G loss 0) 0 \<and> is_double (float_sum (contributions G loss 0) 0)"
    using contributions_nonneg [OF assms] by (intro float_sum_ge is_double_0) simp_all
  then show ?case
    by (simp add: run_contributions_def float_sum_def is_double_0)
next
  case (Suc n)
  let ?a = "float_sum (run_contributions G loss n) 0"
  let ?b = "float_sum (run_contributions G loss (Suc n)) 0"
  have b: "?b = float_sum (contributions G loss n) ?a"
    by (simp only: run_contributions_Suc float_sum_append)
  have "?a \<le> ?b \<and> is_double ?b"
    unfolding b using Suc contributions_nonneg [OF assms] by (intro float_sum_ge) simp_all
  then have pos: "0 \<le> ?b" and dbl: "is_double ?b"
    using Suc by simp_all
  have "?b \<le> float_sum (contributions G loss (Suc n)) ?b"
    using dbl pos contributions_nonneg [OF assms] float_sum_ge by blast
  then show ?case
    using pos dbl by (simp only: run_contributions_Suc [of G loss "Suc n"] float_sum_append)
qed

lemma recorded_mono:
  assumes "\<forall>s m. 0 \<le> loss s m" and "i \<le> j"
  shows "float_sum (run_contributions G loss i) 0 \<le> float_sum (run_contributions G loss j) 0"
  using assms(2)
proof (induction j)
  case 0
  then show ?case by simp
next
  case (Suc j)
  show ?case
  proof (cases "i = Suc j")
    case True
    then show ?thesis by simp
  next
    case False
    then have "i \<le> j" using Suc.prems by simp
    then have "float_sum (run_contributions G loss i) 0 \<le> float_sum (run_contributions G loss j) 0"
      by (rule Suc.IH)
    also have "\<dots> \<le> float_sum (run_contributions G loss (Suc j)) 0"
      using recorded_mono_step [OF assms(1), of G j] by simp
    finally show ?thesis .
  qed
qed


lemma round_single_2: "round_single 2 = 2"
  using round_single_of_nat [of 2] by simp

lemma round_single_1: "round_single 1 = 1"
  using round_single_of_nat [of 1] by simp

lemma round_single_tiny: "round_single (1 / 2 ^ 52) = 1 / 2 ^ 52"
proof -
  have "round_float 24 (real_of_int 1 * 2 powi (- 52)) = real_of_int 1 * 2 powi (- 52)"
    by (intro round_float_scaled_int) simp_all
  then show ?thesis
    by (simp add: round_single_def power_int_minus field_simps)
qed

lemma fadd_2_tiny: "fadd 2 (1 / 2 ^ 52) = 2"
  unfolding fadd_def
  by (subst round_double_eval [where e = 1])
     (simp_all add: power_int_minus round_half_even_def Let_def field_simps)

lemma fadd_2_mean: "fadd 2 (1 / 2 ^ 51) = 2 + 1 / 2 ^ 51"
  unfolding fadd_def
  by (subst round_double_eval [where e = 1])
     (simp_all add: power_int_minus round_half_even_def Let_def field_simps)

lemma mikro_steps_tiny_0: "mikro_steps 2 (loss_tiny 0) 0 = 2"
proof -
  have two: "[0..<2] = [0, 1::nat]"
    by (simp add: upt_rec)
  have "mikro_steps 2 (loss_tiny 0) 0
      = fadd (fadd 0 (round_single (2 / round_single (real 2))))
          (round_single (2 / round_single (real 2)))"
    unfolding mikro_steps_def two by (simp add: loss_tiny_def)
  also have "\<dots> = fadd (fadd 0 1) 1"
    by (simp add: round_single_2 round_single_1)
  also have "\<dots> = 2"
    by (simp add: fadd_def round_double_1 round_double_2)
  finally show ?thesis .
qed

lemma mikro_steps_tiny_1: "mikro_steps 2 (loss_tiny 1) 2 = 2"
proof -
  have two: "[0..<2] = [0, 1::nat]"
    by (simp add: upt_rec)
  have half: "(1::real) / 2 ^ 51 / 2 = 1 / 2 ^ 52"
    by simp
  have "mikro_steps 2 (loss_tiny 1) 2
      = fadd (fadd 2 (round_single (1 / 2 ^ 51 / round_single (real 2))))
          (round_single (1 / 2 ^ 51 / round_single (real 2)))"
    unfolding mikro_steps_def two by (simp add: loss_tiny_def)
  also have "\<dots> = fadd (fadd 2 (round_single (1 / 2 ^ 51 / 2))) (round_single (1 / 2 ^ 51 / 2))"
    by (simp add: round_single_2)
  also have "\<dots> = fadd (fadd 2 (1 / 2 ^ 52)) (1 / 2 ^ 52)"
    by (simp only: half round_single_tiny)
  also have "\<dots> = 2"
    by (simp only: fadd_2_tiny)
  finally show ?thesis .
qed

lemma printed_loss_tiny: "printed (train_loop 2 loss_tiny 2) = [2, 2]"
proof -
  have two: "[0..<2] = [0, 1::nat]"
    by (simp add: upt_rec)
  have t0: "train_step 2 loss_tiny 0 \<lparr>loss_accum = 0, printed = []\<rparr>
      = \<lparr>loss_accum = 2, printed = [2]\<rparr>"
    using mikro_steps_tiny_0 by (simp add: train_step_def Let_def)
  have t1: "train_step 2 loss_tiny 1 \<lparr>loss_accum = 2, printed = [2]\<rparr>
      = \<lparr>loss_accum = 2, printed = [2, 2]\<rparr>"
    using mikro_steps_tiny_1 by (simp add: train_step_def Let_def)
  have "train_loop 2 loss_tiny 2 = \<lparr>loss_accum = 2, printed = [2, 2]\<rparr>"
    unfolding train_loop_def two by (simp only: fold.simps o_apply id_apply t0 t1)
  then show ?thesis by simp
qed

lemma mean_loss_tiny:
  "mean_loss 2 loss_tiny 0 = 2" "mean_loss 2 loss_tiny 1 = 1 / 2 ^ 51"
  "(\<Sum>s'\<le>1. mean_loss 2 loss_tiny s') = 2 + 1 / 2 ^ 51"
proof -
  have "{..<2::nat} = {0, 1}" by auto
  then show m0: "mean_loss 2 loss_tiny 0 = 2" and m1: "mean_loss 2 loss_tiny 1 = 1 / 2 ^ 51"
    by (simp_all add: mean_loss_def loss_tiny_def)
  have "{..1::nat} = {0, 1}" by auto
  then have "(\<Sum>s'\<le>1. mean_loss 2 loss_tiny s') = mean_loss 2 loss_tiny 0 + mean_loss 2 loss_tiny 1"
    by simp
  then show "(\<Sum>s'\<le>1. mean_loss 2 loss_tiny s') = 2 + 1 / 2 ^ 51"
    by (simp only: m0 m1)
qed

text \<open>
  Claim C10 as stated fails in the letter: the recorded value is a sum of floats,
  rounded at each addition, so it need not equal the sum of the means. In the run of
  two steps of two micro-steps with the losses 2 and \<open>2\<^sup>-\<^sup>5\<^sup>1\<close>, the value recorded at
  step 1 is 2, as at step 0, because each of the two additions of \<open>2\<^sup>-\<^sup>5\<^sup>2\<close> to 2 is
  rounded away; the means of the two steps are 2 and \<open>2\<^sup>-\<^sup>5\<^sup>1\<close>, and their sum, which is
  a double, is \<open>2 + 2\<^sup>-\<^sup>5\<^sup>1\<close>.
\<close>

theorem loss_accum_sum_counterexample:
  "printed (train_loop 2 loss_tiny 2) ! 1 = 2
   \<and> (\<Sum>s'\<le>1. mean_loss 2 loss_tiny s') = 2 + 1 / 2 ^ 51
   \<and> fadd (mean_loss 2 loss_tiny 0) (mean_loss 2 loss_tiny 1) = 2 + 1 / 2 ^ 51
   \<and> printed (train_loop 2 loss_tiny 2) ! 1 \<noteq> (\<Sum>s'\<le>1. mean_loss 2 loss_tiny s')"
  unfolding printed_loss_tiny mean_loss_tiny fadd_2_mean by simp

text \<open>
  Claim C10, amended. \<open>loss_accum\<close> is set to 0 once, before the loop, and no step
  resets it: one value is recorded per step; the value recorded at step \<open>s\<close> is the
  running sum, in floating point, of the contributions \<open>loss / grad_accum_steps\<close> of
  all the micro-steps of the steps \<open>0, \<dots>, s\<close>; the value recorded at step \<open>s + 1\<close> is the
  one recorded at step \<open>s\<close> with the contributions of step \<open>s + 1\<close> added to it. With
  \<open>grad_accum_steps\<close> at most \<open>2\<^sup>2\<^sup>4\<close> (it is 256 in the script), the recorded value is the
  sum over the steps \<open>0, \<dots>, s\<close> of each step's mean micro-step loss up to rounding:
  they differ by at most
  \<open>(((1 + 2\<^sup>-\<^sup>5\<^sup>3)\<^sup>N - 1) (1 + 2\<^sup>-\<^sup>2\<^sup>4) + 2\<^sup>-\<^sup>2\<^sup>4)\<close> times the sum of the absolute values of
  all these losses divided by \<open>grad_accum_steps\<close>, where \<open>N = (s + 1) \<times> grad_accum_steps\<close>
  is the number of additions. When no micro-step loss is negative the recorded
  values do not decrease from step to step.
\<close>

theorem loss_accum_cumulative:
  "length (printed (train_loop G loss n)) = n
     \<and> (\<forall>s. s < n \<longrightarrow>
           printed (train_loop G loss n) ! s = float_sum (run_contributions G loss (Suc s)) 0)
     \<and> (\<forall>s. Suc s < n \<longrightarrow>
           printed (train_loop G loss n) ! Suc s
             = mikro_steps G (loss (Suc s)) (printed (train_loop G loss n) ! s))
     \<and> (\<forall>s. G \<le> 2 ^ 24 \<and> s < n \<longrightarrow>
           \<bar>printed (train_loop G loss n) ! s - (\<Sum>s'\<le>s. mean_loss G loss s')\<bar>
             \<le> (((1 + 2 powi (- 53)) ^ (Suc s * G) - 1) * (1 + 2 powi (- 24)) + 2 powi (- 24))
                 * ((\<Sum>s'\<le>s. \<Sum>m<G. \<bar>loss s' m\<bar>) / real G))
     \<and> ((\<forall>s m. 0 \<le> loss s m) \<longrightarrow>
           (\<forall>s s'. s \<le> s' \<and> s' < n \<longrightarrow>
              printed (train_loop G loss n) ! s \<le> printed (train_loop G loss n) ! s'))"
proof (intro conjI allI impI)
  show "length (printed (train_loop G loss n)) = n"
    by (simp add: train_loop_printed)
next
  fix s assume "s < n"
  then show "printed (train_loop G loss n) ! s = float_sum (run_contributions G loss (Suc s)) 0"
    by (rule printed_nth)
next
  fix s assume s: "Suc s < n"
  then have "s < n" by simp
  then show "printed (train_loop G loss n) ! Suc s
      = mikro_steps G (loss (Suc s)) (printed (train_loop G loss n) ! s)"
    using s
    by (simp only: printed_nth mikro_steps_float_sum
        run_contributions_Suc [of G loss "Suc s"] float_sum_append)
next
  fix s assume a: "G \<le> 2 ^ 24 \<and> s < n"
  then have G: "G \<le> 2 ^ 24" and "s < n" by simp_all
  then show "\<bar>printed (train_loop G loss n) ! s - (\<Sum>s'\<le>s. mean_loss G loss s')\<bar>
      \<le> (((1 + 2 powi (- 53)) ^ (Suc s * G) - 1) * (1 + 2 powi (- 24)) + 2 powi (- 24))
          * ((\<Sum>s'\<le>s. \<Sum>m<G. \<bar>loss s' m\<bar>) / real G)"
    using recorded_error [OF G, of loss "Suc s"]
    by (simp only: printed_nth lessThan_Suc_atMost)
next
  fix s s' assume nonneg: "\<forall>s m. 0 \<le> loss s m" and le: "s \<le> s' \<and> s' < n"
  then have "s < n" "s' < n" "Suc s \<le> Suc s'" by simp_all
  then show "printed (train_loop G loss n) ! s \<le> printed (train_loop G loss n) ! s'"
    using recorded_mono [OF nonneg, of "Suc s" "Suc s'" G] by (simp only: printed_nth)
qed

theorem loss_accum_cumulative_witness:
  "(2::nat) \<le> 2 ^ 24
   \<and> (\<forall>s m. 0 \<le> loss_tiny s m)
   \<and> length (printed (train_loop 2 loss_tiny 2)) = 2
   \<and> printed (train_loop 2 loss_tiny 2) ! 1 = float_sum (run_contributions 2 loss_tiny (Suc 1)) 0
   \<and> printed (train_loop 2 loss_tiny 2) ! Suc 0
        = mikro_steps 2 (loss_tiny (Suc 0)) (printed (train_loop 2 loss_tiny 2) ! 0)
   \<and> \<bar>printed (train_loop 2 loss_tiny 2) ! 1 - (\<Sum>s'\<le>1. mean_loss 2 loss_tiny s')\<bar>
        \<le> (((1 + 2 powi (- 53)) ^ (Suc 1 * 2) - 1) * (1 + 2 powi (- 24)) + 2 powi (- 24))
            * ((\<Sum>s'\<le>1. \<Sum>m<2. \<bar>loss_tiny s' m\<bar>) / real 2)
   \<and> printed (train_loop 2 loss_tiny 2) ! 0 \<le> printed (train_loop 2 loss_tiny 2) ! 1
   \<and> printed (train_loop 2 loss_tiny 2) = [2, 2]"
proof -
  have h: "(2::nat) \<le> 2 ^ 24" by simp
  have nonneg: "\<forall>s m. 0 \<le> loss_tiny s m"
    by (simp add: loss_tiny_def)
  note c = loss_accum_cumulative [of 2 loss_tiny 2]
  have one: "(1::nat) < 2" and so: "Suc 0 < 2" and le: "(0::nat) \<le> 1 \<and> (1::nat) < 2"
    by simp_all
  have c1: "length (printed (train_loop 2 loss_tiny 2)) = 2"
    using c by blast
  have c2: "printed (train_loop 2 loss_tiny 2) ! 1 = float_sum (run_contributions 2 loss_tiny (Suc 1)) 0"
    using c one by blast
  have c3: "printed (train_loop 2 loss_tiny 2) ! Suc 0
        = mikro_steps 2 (loss_tiny (Suc 0)) (printed (train_loop 2 loss_tiny 2) ! 0)"
    using c so by blast
  have c4: "\<bar>printed (train_loop 2 loss_tiny 2) ! 1 - (\<Sum>s'\<le>1. mean_loss 2 loss_tiny s')\<bar>
        \<le> (((1 + 2 powi (- 53)) ^ (Suc 1 * 2) - 1) * (1 + 2 powi (- 24)) + 2 powi (- 24))
            * ((\<Sum>s'\<le>1. \<Sum>m<2. \<bar>loss_tiny s' m\<bar>) / real 2)"
    using c h one by blast
  have c5: "printed (train_loop 2 loss_tiny 2) ! 0 \<le> printed (train_loop 2 loss_tiny 2) ! 1"
    using c nonneg le by blast
  show ?thesis
    using h nonneg c1 c2 c3 c4 c5 printed_loss_tiny by blast
qed

subsection \<open>Initialisation\<close>

lemma new_Block_ok:
  assumes "n_head cfg \<noteq> 0" and "n_embd cfg mod n_head cfg = 0"
  shows "new_Block cfg st = Inr (block_at (length st), st @ block_defaults)"
  using assms
  by (simp add: new_Block_def new_LayerNorm_def new_SelfAttention_def new_MLP_def new_Linear_def
      block_at_def block_defaults_def Let_def numeral_eq_Suc)

lemma new_Block_error:
  assumes "\<not> (n_head cfg \<noteq> 0 \<and> n_embd cfg mod n_head cfg = 0)"
  shows "\<exists>e. new_Block cfg st = Inl e"
  using assms
  by (auto simp add: new_Block_def new_LayerNorm_def new_SelfAttention_def Let_def)

lemma length_block_defaults: "length block_defaults = 12"
  by (simp add: block_defaults_def)

lemma new_blocks_ok:
  assumes "n_head cfg \<noteq> 0" and "n_embd cfg mod n_head cfg = 0"
  shows "new_blocks cfg n st =
     Inr (map (\<lambda>i. block_at (length st + 12 * i)) [0..<n], st @ concat (replicate n block_defaults))"
proof (induction n arbitrary: st)
  case 0
  then show ?case by simp
next
  case (Suc n)
  have upt: "[0..<Suc n] = 0 # map Suc [0..<n]"
    by (simp add: upt_conv_Cons map_Suc_upt del: upt_Suc)
  show ?case
    unfolding upt
    by (simp add: new_Block_ok [OF assms] Suc length_block_defaults comp_def add.assoc
        del: upt_Suc)
qed

lemma new_blocks_error:
  assumes "\<not> (n_head cfg \<noteq> 0 \<and> n_embd cfg mod n_head cfg = 0)" and "n \<noteq> 0"
  shows "\<exists>e. new_blocks cfg n st = Inl e"
proof -
  obtain k where k: "n = Suc k"
    using assms(2) by (cases n) simp_all
  obtain e where "new_Block cfg st = Inl e"
    using new_Block_error [OF assms(1)] by blast
  then show ?thesis
    unfolding k by simp
qed

lemma length_concat_replicate_defaults: "length (concat (replicate n block_defaults)) = 12 * n"
  by (induction n) (simp_all add: length_block_defaults)

lemma apply_init_append:
  "apply_init cfg (xs @ ys) st =
     (case apply_init cfg xs st of Inl e \<Rightarrow> Inl e | Inr st' \<Rightarrow> apply_init cfg ys st')"
  by (induction xs arbitrary: st) (simp_all split: sum.splits)

lemma apply_init_block:
  assumes "scaled_std cfg = Inr std"
  shows "apply_init cfg (block_apply_order (block_at a)) st = Inr (init_block_store std a st)"
  by (simp add: block_apply_order_def block_at_def init_weights_def assms init_block_store_def)

lemma blocks_store_Suc:
  "blocks_store std base (Suc n) st = init_block_store std (base + 12 * n) (blocks_store std base n st)"
  by (simp add: blocks_store_def)

lemma apply_init_blocks:
  assumes "n = 0 \<or> scaled_std cfg = Inr std"
  shows "apply_init cfg (concat (map (\<lambda>i. block_apply_order (block_at (base + 12 * i))) [0..<n])) st
     = Inr (blocks_store std base n st)"
  using assms
proof (induction n)
  case 0
  then show ?case by (simp add: blocks_store_def)
next
  case (Suc n)
  then have std: "scaled_std cfg = Inr std" by simp
  have ih: "apply_init cfg (concat (map (\<lambda>i. block_apply_order (block_at (base + 12 * i))) [0..<n])) st
     = Inr (blocks_store std base n st)"
    using Suc.IH std by simp
  show ?case
    by (simp add: apply_init_append ih apply_init_block [OF std] blocks_store_Suc)
qed

lemma scaled_std_ok: "n_layer cfg \<noteq> 0 \<Longrightarrow> scaled_std cfg = Inr (scaled_value cfg)"
  by (simp add: scaled_std_def scaled_value_def)

lemma apply_init_constructed:
  "apply_init cfg (apply_order (constructed_module cfg))
     ([DefaultInit, DefaultInit] @ concat (replicate (n_layer cfg) block_defaults)
        @ [Ones, Zeros, DefaultInit])
   = Inr (constructed_store cfg)"
proof -
  let ?st0 = "[DefaultInit, DefaultInit] @ concat (replicate (n_layer cfg) block_defaults)
        @ [Ones, Zeros, DefaultInit]"
  let ?st1 = "?st0[4 + 12 * n_layer cfg := Normal 0 std0, 1 := Normal 0 std0]"
  have std: "n_layer cfg = 0 \<or> scaled_std cfg = Inr (scaled_value cfg)"
    using scaled_std_ok by blast
  have order: "apply_order (constructed_module cfg) =
      [Embedding \<lparr>emb_weight_ref = 4 + 12 * n_layer cfg\<rparr>, Embedding \<lparr>emb_weight_ref = 1\<rparr>]
      @ concat (map (\<lambda>i. block_apply_order (block_at (2 + 12 * i))) [0..<n_layer cfg])
      @ [Other, LayerNorm \<lparr>norm_weight_ref = 2 + 12 * n_layer cfg, norm_bias_ref = 3 + 12 * n_layer cfg\<rparr>,
         Other, Linear \<lparr>weight_ref = 4 + 12 * n_layer cfg, bias_ref = None, scale_init = False\<rparr>,
         Other]"
    by (simp add: apply_order_def constructed_module_def comp_def)
  have a: "apply_init cfg
      [Embedding \<lparr>emb_weight_ref = 4 + 12 * n_layer cfg\<rparr>, Embedding \<lparr>emb_weight_ref = 1\<rparr>] ?st0
      = Inr ?st1"
    by (simp add: init_weights_def)
  have b: "apply_init cfg
      (concat (map (\<lambda>i. block_apply_order (block_at (2 + 12 * i))) [0..<n_layer cfg])) ?st1
      = Inr (blocks_store (scaled_value cfg) 2 (n_layer cfg) ?st1)"
    using std by (rule apply_init_blocks)
  have c: "apply_init cfg
      [Other, LayerNorm \<lparr>norm_weight_ref = 2 + 12 * n_layer cfg, norm_bias_ref = 3 + 12 * n_layer cfg\<rparr>,
       Other, Linear \<lparr>weight_ref = 4 + 12 * n_layer cfg, bias_ref = None, scale_init = False\<rparr>,
       Other] st
      = Inr (st[4 + 12 * n_layer cfg := Normal 0 std0])" for st
    by (simp add: init_weights_def)
  show ?thesis
    by (simp only: order apply_init_append a b c sum.case constructed_store_def)
qed

lemma GPT_init_ok:
  assumes "n_layer cfg = 0 \<or> (n_head cfg \<noteq> 0 \<and> n_embd cfg mod n_head cfg = 0)"
  shows "GPT_init cfg = Inr (constructed_module cfg, constructed_store cfg)"
proof -
  have blocks: "new_blocks cfg (n_layer cfg) [DefaultInit, DefaultInit] =
      Inr (map (\<lambda>i. block_at (2 + 12 * i)) [0..<n_layer cfg],
           [DefaultInit, DefaultInit] @ concat (replicate (n_layer cfg) block_defaults))"
  proof (cases "n_layer cfg = 0")
    case True
    then show ?thesis by simp
  next
    case False
    then show ?thesis
      using assms new_blocks_ok [of cfg "n_layer cfg" "[DefaultInit, DefaultInit]"] by simp
  qed
  have new: "new_Embedding [] = (\<lparr>emb_weight_ref = 0\<rparr>, [DefaultInit])"
    "new_Embedding [DefaultInit] = (\<lparr>emb_weight_ref = 1\<rparr>, [DefaultInit, DefaultInit])"
    "new_LayerNorm ([DefaultInit, DefaultInit] @ concat (replicate (n_layer cfg) block_defaults))
      = (\<lparr>norm_weight_ref = 2 + 12 * n_layer cfg, norm_bias_ref = 3 + 12 * n_layer cfg\<rparr>,
         [DefaultInit, DefaultInit] @ concat (replicate (n_layer cfg) block_defaults) @ [Ones, Zeros])"
    "new_Linear False
       ([DefaultInit, DefaultInit] @ concat (replicate (n_layer cfg) block_defaults) @ [Ones, Zeros])
      = (\<lparr>weight_ref = 4 + 12 * n_layer cfg, bias_ref = None, scale_init = False\<rparr>,
         [DefaultInit, DefaultInit] @ concat (replicate (n_layer cfg) block_defaults)
           @ [Ones, Zeros, DefaultInit])"
    by (simp_all add: new_Embedding_def new_LayerNorm_def new_Linear_def
        length_concat_replicate_defaults)
  have "GPT_init cfg =
      (case apply_init cfg (apply_order (constructed_module cfg))
              ([DefaultInit, DefaultInit] @ concat (replicate (n_layer cfg) block_defaults)
                 @ [Ones, Zeros, DefaultInit]) of
         Inl e \<Rightarrow> Inl e | Inr st \<Rightarrow> Inr (constructed_module cfg, st))"
    by (simp only: GPT_init_def new Let_def prod.case blocks sum.case constructed_module_def
        embedding_module.simps linear_module.simps)
  then show ?thesis
    by (simp only: apply_init_constructed sum.case)
qed

lemma GPT_init_closed_form:
  assumes "GPT_init cfg = Inr (m, st)"
  shows "m = constructed_module cfg" and "st = constructed_store cfg"
    and "n_layer cfg = 0 \<or> (n_head cfg \<noteq> 0 \<and> n_embd cfg mod n_head cfg = 0)"
proof -
  show ok: "n_layer cfg = 0 \<or> (n_head cfg \<noteq> 0 \<and> n_embd cfg mod n_head cfg = 0)"
  proof (rule ccontr)
    assume "\<not> ?thesis"
    then have "\<exists>e. new_blocks cfg (n_layer cfg) [DefaultInit, DefaultInit] = Inl e"
      by (intro new_blocks_error) simp_all
    then show False
      using assms by (auto simp: GPT_init_def new_Embedding_def Let_def)
  qed
  show "m = constructed_module cfg" and "st = constructed_store cfg"
    using assms GPT_init_ok [OF ok] by simp_all
qed

lemma length_init_block_store: "length (init_block_store std a st) = length st"
  by (simp add: init_block_store_def)

lemma length_blocks_store: "length (blocks_store std base n st) = length st"
  by (induction n) (simp_all add: blocks_store_Suc length_init_block_store, simp add: blocks_store_def)

lemma init_block_store_frame:
  assumes "a' < a + 4 \<or> a + 12 \<le> a'"
  shows "init_block_store std a st ! a' = st ! a'"
  using assms by (auto simp add: init_block_store_def)

lemma init_block_store_nth:
  assumes "a + 12 \<le> length st"
  shows "init_block_store std a st ! (a + 4) = Normal 0 std0"
    and "init_block_store std a st ! (a + 5) = Zeros"
    and "init_block_store std a st ! (a + 6) = Normal 0 std"
    and "init_block_store std a st ! (a + 7) = Zeros"
    and "init_block_store std a st ! (a + 8) = Normal 0 std0"
    and "init_block_store std a st ! (a + 9) = Zeros"
    and "init_block_store std a st ! (a + 10) = Normal 0 std"
    and "init_block_store std a st ! (a + 11) = Zeros"
  using assms by (simp_all add: init_block_store_def)

lemma blocks_store_frame:
  assumes "\<forall>i<n. a' < base + 12 * i + 4 \<or> base + 12 * i + 12 \<le> a'"
  shows "blocks_store std base n st ! a' = st ! a'"
  using assms
proof (induction n)
  case 0
  then show ?case by (simp add: blocks_store_def)
next
  case (Suc n)
  have "a' < base + 12 * n + 4 \<or> base + 12 * n + 12 \<le> a'"
    using Suc.prems by simp
  then have "blocks_store std base (Suc n) st ! a' = blocks_store std base n st ! a'"
    unfolding blocks_store_Suc by (rule init_block_store_frame)
  also have "\<dots> = st ! a'"
    using Suc.prems by (intro Suc.IH) simp
  finally show ?case .
qed

lemma blocks_store_nth:
  assumes "i < n" and "base + 12 * n \<le> length st"
  shows "blocks_store std base n st ! (base + 12 * i + 4) = Normal 0 std0
       \<and> blocks_store std base n st ! (base + 12 * i + 5) = Zeros
       \<and> blocks_store std base n st ! (base + 12 * i + 6) = Normal 0 std
       \<and> blocks_store std base n st ! (base + 12 * i + 7) = Zeros
       \<and> blocks_store std base n st ! (base + 12 * i + 8) = Normal 0 std0
       \<and> blocks_store std base n st ! (base + 12 * i + 9) = Zeros
       \<and> blocks_store std base n st ! (base + 12 * i + 10) = Normal 0 std
       \<and> blocks_store std base n st ! (base + 12 * i + 11) = Zeros"
  using assms
proof (induction n)
  case 0
  then show ?case by simp
next
  case (Suc n)
  show ?case
  proof (cases "i = n")
    case True
    have len: "base + 12 * n + 12 \<le> length (blocks_store std base n st)"
      using Suc.prems(2) by (simp add: length_blocks_store)
    show ?thesis
      unfolding blocks_store_Suc True
      using init_block_store_nth [OF len, of std] by (simp add: add.assoc)
  next
    case False
    then have i: "i < n" using Suc.prems(1) by simp
    have ih: "blocks_store std base n st ! (base + 12 * i + 4) = Normal 0 std0
       \<and> blocks_store std base n st ! (base + 12 * i + 5) = Zeros
       \<and> blocks_store std base n st ! (base + 12 * i + 6) = Normal 0 std
       \<and> blocks_store std base n st ! (base + 12 * i + 7) = Zeros
       \<and> blocks_store std base n st ! (base + 12 * i + 8) = Normal 0 std0
       \<and> blocks_store std base n st ! (base + 12 * i + 9) = Zeros
       \<and> blocks_store std base n st ! (base + 12 * i + 10) = Normal 0 std
       \<and> blocks_store std base n st ! (base + 12 * i + 11) = Zeros"
      using i Suc.prems(2) by (intro Suc.IH) simp_all
    have fr: "blocks_store std base (Suc n) st ! (base + 12 * i + k)
        = blocks_store std base n st ! (base + 12 * i + k)" if "k < 12" for k
      unfolding blocks_store_Suc using i that by (intro init_block_store_frame) simp
    show ?thesis
      using ih by (simp add: fr)
  qed
qed

lemma nth_concat_replicate_defaults:
  assumes "i < n" and "k < 12"
  shows "concat (replicate n block_defaults) ! (12 * i + k) = block_defaults ! k"
  using assms
proof (induction n arbitrary: i)
  case 0
  then show ?case by simp
next
  case (Suc n)
  show ?case
  proof (cases i)
    case 0
    then show ?thesis
      using Suc.prems(2) by (simp add: nth_append length_block_defaults)
  next
    case (Suc j)
    then have "j < n" using Suc.prems(1) by simp
    then have "concat (replicate n block_defaults) ! (12 * j + k) = block_defaults ! k"
      using Suc.prems(2) by (intro Suc.IH) simp_all
    then show ?thesis
      unfolding Suc by (simp add: nth_append length_block_defaults)
  qed
qed

lemma length_constructed_store: "length (constructed_store cfg) = 5 + 12 * n_layer cfg"
  by (simp add: constructed_store_def length_blocks_store length_concat_replicate_defaults)

lemma constructed_store_shared:
  "constructed_store cfg ! (4 + 12 * n_layer cfg) = Normal 0 std0"
  by (simp add: constructed_store_def length_blocks_store length_concat_replicate_defaults)

lemma constructed_store_wpe: "constructed_store cfg ! 1 = Normal 0 std0"
proof -
  let ?st0 = "[DefaultInit, DefaultInit] @ concat (replicate (n_layer cfg) block_defaults)
        @ [Ones, Zeros, DefaultInit]"
  let ?st1 = "?st0[4 + 12 * n_layer cfg := Normal 0 std0, 1 := Normal 0 std0]"
  have "constructed_store cfg ! 1 = blocks_store (scaled_value cfg) 2 (n_layer cfg) ?st1 ! 1"
    by (simp add: constructed_store_def)
  also have "\<dots> = ?st1 ! 1"
    by (intro blocks_store_frame) simp
  also have "\<dots> = Normal 0 std0"
    by (simp add: length_concat_replicate_defaults)
  finally show ?thesis .
qed

lemma constructed_store_block:
  assumes "i < n_layer cfg"
  shows "constructed_store cfg ! (2 + 12 * i + 4) = Normal 0 std0
       \<and> constructed_store cfg ! (2 + 12 * i + 5) = Zeros
       \<and> constructed_store cfg ! (2 + 12 * i + 6) = Normal 0 (scaled_value cfg)
       \<and> constructed_store cfg ! (2 + 12 * i + 7) = Zeros
       \<and> constructed_store cfg ! (2 + 12 * i + 8) = Normal 0 std0
       \<and> constructed_store cfg ! (2 + 12 * i + 9) = Zeros
       \<and> constructed_store cfg ! (2 + 12 * i + 10) = Normal 0 (scaled_value cfg)
       \<and> constructed_store cfg ! (2 + 12 * i + 11) = Zeros"
proof -
  define st1 where "st1 =
    ([DefaultInit, DefaultInit] @ concat (replicate (n_layer cfg) block_defaults)
        @ [Ones, Zeros, DefaultInit])
      [4 + 12 * n_layer cfg := Normal 0 std0, 1 := Normal 0 std0]"
  have cs: "constructed_store cfg
      = (blocks_store (scaled_value cfg) 2 (n_layer cfg) st1)[4 + 12 * n_layer cfg := Normal 0 std0]"
    by (simp only: constructed_store_def st1_def)
  have len: "2 + 12 * n_layer cfg \<le> length st1"
    by (simp add: st1_def length_concat_replicate_defaults)
  have out: "constructed_store cfg ! (2 + 12 * i + k)
      = blocks_store (scaled_value cfg) 2 (n_layer cfg) st1 ! (2 + 12 * i + k)" if "k < 12" for k
    unfolding cs by (rule nth_list_update_neq) (use assms that in simp)
  have k: "(4::nat) < 12" "(5::nat) < 12" "(6::nat) < 12" "(7::nat) < 12" "(8::nat) < 12"
    "(9::nat) < 12" "(10::nat) < 12" "(11::nat) < 12"
    by simp_all
  show ?thesis
    using blocks_store_nth [OF assms len, of "scaled_value cfg"]
    by (simp only: k [THEN out])
qed

lemma constructed_store_norm:
  assumes "i < n_layer cfg"
  shows "constructed_store cfg ! (2 + 12 * i + 1) = Zeros"
    and "constructed_store cfg ! (2 + 12 * i + 3) = Zeros"
proof -
  let ?st0 = "[DefaultInit, DefaultInit] @ concat (replicate (n_layer cfg) block_defaults)
        @ [Ones, Zeros, DefaultInit]"
  let ?st1 = "?st0[4 + 12 * n_layer cfg := Normal 0 std0, 1 := Normal 0 std0]"
  have val: "constructed_store cfg ! (2 + 12 * i + k) = block_defaults ! k" if "k < 4" for k
  proof -
    have "constructed_store cfg ! (2 + 12 * i + k)
        = blocks_store (scaled_value cfg) 2 (n_layer cfg) ?st1 ! (2 + 12 * i + k)"
      using assms that by (simp add: constructed_store_def)
    also have "\<dots> = ?st1 ! (2 + 12 * i + k)"
    proof (intro blocks_store_frame allI impI)
      fix j assume "j < n_layer cfg"
      show "2 + 12 * i + k < 2 + 12 * j + 4 \<or> 2 + 12 * j + 12 \<le> 2 + 12 * i + k"
        using that by (cases "i \<le> j") simp_all
    qed
    also have "\<dots> = ?st0 ! (2 + 12 * i + k)"
      using assms that by simp
    also have "\<dots> = concat (replicate (n_layer cfg) block_defaults) ! (12 * i + k)"
      using assms that by (simp add: nth_append length_concat_replicate_defaults)
    also have "\<dots> = block_defaults ! k"
      using assms that by (intro nth_concat_replicate_defaults) simp_all
    finally show ?thesis .
  qed
  show "constructed_store cfg ! (2 + 12 * i + 1) = Zeros"
    using val [of 1] by (simp add: block_defaults_def)
  show "constructed_store cfg ! (2 + 12 * i + 3) = Zeros"
    using val [of 3] by (simp add: block_defaults_def)
qed

lemma constructed_store_ln_f: "constructed_store cfg ! (3 + 12 * n_layer cfg) = Zeros"
proof -
  let ?st0 = "[DefaultInit, DefaultInit] @ concat (replicate (n_layer cfg) block_defaults)
        @ [Ones, Zeros, DefaultInit]"
  let ?st1 = "?st0[4 + 12 * n_layer cfg := Normal 0 std0, 1 := Normal 0 std0]"
  have "constructed_store cfg ! (3 + 12 * n_layer cfg)
      = blocks_store (scaled_value cfg) 2 (n_layer cfg) ?st1 ! (3 + 12 * n_layer cfg)"
    by (simp add: constructed_store_def)
  also have "\<dots> = ?st1 ! (3 + 12 * n_layer cfg)"
    by (intro blocks_store_frame) simp
  also have "\<dots> = Zeros"
    by (simp add: nth_append length_concat_replicate_defaults)
  finally show ?thesis .
qed

lemma block_initialised:
  assumes "i < n_layer cfg"
  shows "constructed_store cfg ! weight_ref (am_c_attn (bm_attn (block_at (2 + 12 * i)))) = Normal 0 std0
       \<and> constructed_store cfg ! weight_ref (mm_c_fc (bm_mlp (block_at (2 + 12 * i)))) = Normal 0 std0
       \<and> constructed_store cfg ! weight_ref (am_c_proj (bm_attn (block_at (2 + 12 * i))))
           = Normal 0 (scaled_value cfg)
       \<and> constructed_store cfg ! weight_ref (mm_c_proj (bm_mlp (block_at (2 + 12 * i))))
           = Normal 0 (scaled_value cfg)
       \<and> (\<forall>l \<in> {am_c_attn (bm_attn (block_at (2 + 12 * i))), am_c_proj (bm_attn (block_at (2 + 12 * i))),
                  mm_c_fc (bm_mlp (block_at (2 + 12 * i))), mm_c_proj (bm_mlp (block_at (2 + 12 * i)))}.
             \<exists>a. bias_ref l = Some a \<and> constructed_store cfg ! a = Zeros)
       \<and> constructed_store cfg ! norm_bias_ref (bm_ln_1 (block_at (2 + 12 * i))) = Zeros
       \<and> constructed_store cfg ! norm_bias_ref (bm_ln_2 (block_at (2 + 12 * i))) = Zeros"
  using constructed_store_block [OF assms] constructed_store_norm [OF assms]
  by (simp add: block_at_def)

text \<open>
  Claim C8. Whenever the constructor of \<open>GPT\<close> returns (it does when \<open>n_layer\<close> is 0 or
  \<open>n_head\<close> is not 0 and divides \<open>n_embd\<close>), it leaves the weights of the two embeddings
  (the token embedding shares its tensor with \<open>lm_head\<close>), of \<open>lm_head\<close> and, in each of
  the \<open>n_layer\<close> blocks, of \<open>c_attn\<close> and \<open>c_fc\<close> drawn from the normal distribution with
  mean 0 and standard deviation \<open>0.02\<close>, and the weights of the two \<open>c_proj\<close> of each block
  drawn with the standard deviation \<open>0.02 * (2 * n_layer) ** -0.5\<close>; every linear layer
  of a block has a bias, set to zeros, \<open>lm_head\<close> has none, and the biases of the layer
  norms are the zeros of their constructor.
\<close>

theorem scaled_initialization:
  "(n_layer cfg = 0 \<or> (n_head cfg \<noteq> 0 \<and> n_embd cfg mod n_head cfg = 0)
      \<longrightarrow> (\<exists>m st. GPT_init cfg = Inr (m, st)))
   \<and> (\<forall>m st. GPT_init cfg = Inr (m, st) \<longrightarrow>
        length (gm_h m) = n_layer cfg
      \<and> st ! emb_weight_ref (gm_wte m) = Normal 0 std0
      \<and> st ! emb_weight_ref (gm_wpe m) = Normal 0 std0
      \<and> st ! weight_ref (gm_lm_head m) = Normal 0 std0
      \<and> bias_ref (gm_lm_head m) = None
      \<and> (\<forall>b \<in> set (gm_h m).
            st ! weight_ref (am_c_attn (bm_attn b)) = Normal 0 std0
          \<and> st ! weight_ref (mm_c_fc (bm_mlp b)) = Normal 0 std0
          \<and> st ! weight_ref (am_c_proj (bm_attn b))
              = Normal 0 (fmul std0 (float_pow (float_of_int (int (2 * n_layer cfg))) (- 0.5)))
          \<and> st ! weight_ref (mm_c_proj (bm_mlp b))
              = Normal 0 (fmul std0 (float_pow (float_of_int (int (2 * n_layer cfg))) (- 0.5)))
          \<and> (\<forall>l \<in> {am_c_attn (bm_attn b), am_c_proj (bm_attn b),
                     mm_c_fc (bm_mlp b), mm_c_proj (bm_mlp b)}.
                \<exists>a. bias_ref l = Some a \<and> st ! a = Zeros)
          \<and> st ! norm_bias_ref (bm_ln_1 b) = Zeros
          \<and> st ! norm_bias_ref (bm_ln_2 b) = Zeros)
      \<and> st ! norm_bias_ref (gm_ln_f m) = Zeros)"
proof (intro conjI allI impI)
  assume "n_layer cfg = 0 \<or> (n_head cfg \<noteq> 0 \<and> n_embd cfg mod n_head cfg = 0)"
  then have "GPT_init cfg = Inr (constructed_module cfg, constructed_store cfg)"
    by (rule GPT_init_ok)
  then show "\<exists>m st. GPT_init cfg = Inr (m, st)"
    by blast
next
  fix m st assume init: "GPT_init cfg = Inr (m, st)"
  note m = GPT_init_closed_form(1) [OF init] and st = GPT_init_closed_form(2) [OF init]
  show "length (gm_h m) = n_layer cfg"
    by (simp add: m constructed_module_def)
  show "st ! emb_weight_ref (gm_wte m) = Normal 0 std0"
    using constructed_store_shared [of cfg] by (simp add: m st constructed_module_def)
  show "st ! emb_weight_ref (gm_wpe m) = Normal 0 std0"
    using constructed_store_wpe [of cfg] by (simp add: m st constructed_module_def)
  show "st ! weight_ref (gm_lm_head m) = Normal 0 std0"
    using constructed_store_shared [of cfg] by (simp add: m st constructed_module_def)
  show "bias_ref (gm_lm_head m) = None"
    by (simp add: m constructed_module_def)
  show "st ! norm_bias_ref (gm_ln_f m) = Zeros"
    using constructed_store_ln_f [of cfg] by (simp add: m st constructed_module_def)
  show "\<forall>b \<in> set (gm_h m).
            st ! weight_ref (am_c_attn (bm_attn b)) = Normal 0 std0
          \<and> st ! weight_ref (mm_c_fc (bm_mlp b)) = Normal 0 std0
          \<and> st ! weight_ref (am_c_proj (bm_attn b))
              = Normal 0 (fmul std0 (float_pow (float_of_int (int (2 * n_layer cfg))) (- 0.5)))
          \<and> st ! weight_ref (mm_c_proj (bm_mlp b))
              = Normal 0 (fmul std0 (float_pow (float_of_int (int (2 * n_layer cfg))) (- 0.5)))
          \<and> (\<forall>l \<in> {am_c_attn (bm_attn b), am_c_proj (bm_attn b),
                     mm_c_fc (bm_mlp b), mm_c_proj (bm_mlp b)}.
                \<exists>a. bias_ref l = Some a \<and> st ! a = Zeros)
          \<and> st ! norm_bias_ref (bm_ln_1 b) = Zeros
          \<and> st ! norm_bias_ref (bm_ln_2 b) = Zeros"
  proof
    fix b assume "b \<in> set (gm_h m)"
    then obtain i where i: "i < n_layer cfg" and b: "b = block_at (2 + 12 * i)"
      by (auto simp: m constructed_module_def)
    show "st ! weight_ref (am_c_attn (bm_attn b)) = Normal 0 std0
          \<and> st ! weight_ref (mm_c_fc (bm_mlp b)) = Normal 0 std0
          \<and> st ! weight_ref (am_c_proj (bm_attn b))
              = Normal 0 (fmul std0 (float_pow (float_of_int (int (2 * n_layer cfg))) (- 0.5)))
          \<and> st ! weight_ref (mm_c_proj (bm_mlp b))
              = Normal 0 (fmul std0 (float_pow (float_of_int (int (2 * n_layer cfg))) (- 0.5)))
          \<and> (\<forall>l \<in> {am_c_attn (bm_attn b), am_c_proj (bm_attn b),
                     mm_c_fc (bm_mlp b), mm_c_proj (bm_mlp b)}.
                \<exists>a. bias_ref l = Some a \<and> st ! a = Zeros)
          \<and> st ! norm_bias_ref (bm_ln_1 b) = Zeros
          \<and> st ! norm_bias_ref (bm_ln_2 b) = Zeros"
      using block_initialised [OF i] unfolding b st scaled_value_def .
  qed
qed

theorem scaled_initialization_witness:
  "(n_head main_config \<noteq> 0 \<and> n_embd main_config mod n_head main_config = 0)
   \<and> (\<exists>m st. GPT_init main_config = Inr (m, st)
         \<and> length (gm_h m) = 12
         \<and> st ! emb_weight_ref (gm_wte m) = Normal 0 std0
         \<and> st ! weight_ref (am_c_attn (bm_attn (gm_h m ! 0))) = Normal 0 std0
         \<and> st ! weight_ref (am_c_proj (bm_attn (gm_h m ! 0)))
             = Normal 0 (fmul std0 (float_pow (float_of_int 24) (- 0.5)))
         \<and> st ! weight_ref (mm_c_proj (bm_mlp (gm_h m ! 11)))
             = Normal 0 (fmul std0 (float_pow (float_of_int 24) (- 0.5)))
         \<and> (\<exists>a. bias_ref (mm_c_proj (bm_mlp (gm_h m ! 11))) = Some a \<and> st ! a = Zeros))"
proof -
  have cfg: "n_layer main_config = 12" "n_head main_config = 12" "n_embd main_config = 768"
    by (simp_all add: main_config_def default_config_def)
  have h: "n_layer main_config = 0
      \<or> (n_head main_config \<noteq> 0 \<and> n_embd main_config mod n_head main_config = 0)"
    by (simp add: cfg)
  note c = scaled_initialization [of main_config]
  from c h obtain m st where init: "GPT_init main_config = Inr (m, st)"
    by blast
  have len: "length (gm_h m) = 12"
    using c init cfg(1) by metis
  then have mem: "gm_h m ! 0 \<in> set (gm_h m)" "gm_h m ! 11 \<in> set (gm_h m)"
    by simp_all
  have two: "int (2 * n_layer main_config) = 24"
    by (simp add: cfg)
  have wte: "st ! emb_weight_ref (gm_wte m) = Normal 0 std0"
    using c init by blast
  have blocks: "\<forall>b \<in> set (gm_h m).
            st ! weight_ref (am_c_attn (bm_attn b)) = Normal 0 std0
          \<and> st ! weight_ref (mm_c_fc (bm_mlp b)) = Normal 0 std0
          \<and> st ! weight_ref (am_c_proj (bm_attn b))
              = Normal 0 (fmul std0 (float_pow (float_of_int 24) (- 0.5)))
          \<and> st ! weight_ref (mm_c_proj (bm_mlp b))
              = Normal 0 (fmul std0 (float_pow (float_of_int 24) (- 0.5)))
          \<and> (\<forall>l \<in> {am_c_attn (bm_attn b), am_c_proj (bm_attn b),
                     mm_c_fc (bm_mlp b), mm_c_proj (bm_mlp b)}.
                \<exists>a. bias_ref l = Some a \<and> st ! a = Zeros)
          \<and> st ! norm_bias_ref (bm_ln_1 b) = Zeros
          \<and> st ! norm_bias_ref (bm_ln_2 b) = Zeros"
    using c init unfolding two by blast
  have b0: "st ! weight_ref (am_c_attn (bm_attn (gm_h m ! 0))) = Normal 0 std0"
    "st ! weight_ref (am_c_proj (bm_attn (gm_h m ! 0)))
       = Normal 0 (fmul std0 (float_pow (float_of_int 24) (- 0.5)))"
    using blocks mem(1) by blast+
  have b11: "st ! weight_ref (mm_c_proj (bm_mlp (gm_h m ! 11)))
       = Normal 0 (fmul std0 (float_pow (float_of_int 24) (- 0.5)))"
    "\<exists>a. bias_ref (mm_c_proj (bm_mlp (gm_h m ! 11))) = Some a \<and> st ! a = Zeros"
    using blocks mem(2) by blast+
  have h': "n_head main_config \<noteq> 0 \<and> n_embd main_config mod n_head main_config = 0"
    by (simp add: cfg)
  show ?thesis
    using h' init len wte b0 b11 by blast
qed

subsection \<open>Weight tying\<close>

lemma first_occurrences_props:
  "set (first_occurrences seen as) = set as - set seen \<and> distinct (first_occurrences seen as)"
  by (induction as arbitrary: seen) auto

lemma fold_update_length:
  "length (fold (\<lambda>a st. st[a := f (st ! a)]) as st) = length st"
  by (induction as arbitrary: st) simp_all

lemma fold_update_notin:
  assumes "a \<notin> set as"
  shows "fold (\<lambda>a st. st[a := f (st ! a)]) as st ! a = st ! a"
  using assms by (induction as arbitrary: st) auto

lemma fold_update_distinct:
  assumes "distinct as" and "a \<in> set as" and "a < length st"
  shows "fold (\<lambda>a st. st[a := f (st ! a)]) as st ! a = f (st ! a)"
  using assms
proof (induction as arbitrary: st)
  case Nil
  then show ?case by simp
next
  case (Cons b as)
  show ?case
  proof (cases "a = b")
    case True
    then have "a \<notin> set as" using Cons.prems(1) by simp
    then have "fold (\<lambda>a st. st[a := f (st ! a)]) as (st[b := f (st ! b)]) ! a
        = st[b := f (st ! b)] ! a"
      by (rule fold_update_notin)
    then show ?thesis
      using True Cons.prems(3) by simp
  next
    case False
    then have "fold (\<lambda>a st. st[a := f (st ! a)]) as (st[b := f (st ! b)]) ! a
        = f (st[b := f (st ! b)] ! a)"
      using Cons.prems by (intro Cons.IH) simp_all
    then show ?thesis
      using False by simp
  qed
qed

lemma optimizer_step_shared:
  assumes "a \<in> set (all_parameters m)" and "a < length st"
  shows "optimizer_step m k st ! a = Updated k (st ! a)"
    and "length (optimizer_step m k st) = length st"
proof -
  have "distinct (parameters m)" and "a \<in> set (parameters m)"
    using assms(1) by (simp_all add: parameters_def first_occurrences_props)
  then show "optimizer_step m k st ! a = Updated k (st ! a)"
    unfolding optimizer_step_def using assms(2) by (rule fold_update_distinct)
  show "length (optimizer_step m k st) = length st"
    unfolding optimizer_step_def by (rule fold_update_length)
qed

lemma train_shared:
  assumes "a \<in> set (all_parameters m)" and "a < length st"
  shows "train m n st ! a = fold Updated [0..<n] (st ! a) \<and> length (train m n st) = length st"
proof (induction n)
  case 0
  then show ?case by (simp add: train_def)
next
  case (Suc n)
  have step: "train m (Suc n) st = optimizer_step m n (train m n st)"
    by (simp add: train_def)
  have len: "a < length (train m n st)"
    using Suc assms(2) by simp
  show ?case
    unfolding step using optimizer_step_shared [OF assms(1) len, of n] Suc by simp
qed

text \<open>
  Claim C3. Whenever the constructor of \<open>GPT\<close> returns, the weight of the token
  embedding and the weight of \<open>lm_head\<close> are one tensor of the store, which the
  initialisation has set (to a draw with standard deviation \<open>0.02\<close>); after any number
  of optimizer steps the two modules still read the same content, which every step
  has updated once; and a write through either of the two names is read through the
  other.
\<close>

theorem weight_tying:
  "\<forall>m st. GPT_init cfg = Inr (m, st) \<longrightarrow>
      emb_weight_ref (gm_wte m) = weight_ref (gm_lm_head m)
    \<and> weight_ref (gm_lm_head m) < length st
    \<and> st ! emb_weight_ref (gm_wte m) = Normal 0 std0
    \<and> st ! weight_ref (gm_lm_head m) = Normal 0 std0
    \<and> (\<forall>n. train m n st ! emb_weight_ref (gm_wte m) = train m n st ! weight_ref (gm_lm_head m)
          \<and> train m n st ! weight_ref (gm_lm_head m) = fold Updated [0..<n] (Normal 0 std0))
    \<and> (\<forall>st' v. length st' = length st \<longrightarrow>
          st'[emb_weight_ref (gm_wte m) := v] ! weight_ref (gm_lm_head m) = v
        \<and> st'[weight_ref (gm_lm_head m) := v] ! emb_weight_ref (gm_wte m) = v)"
proof (intro allI impI)
  fix m st assume init: "GPT_init cfg = Inr (m, st)"
  note m = GPT_init_closed_form(1) [OF init] and st = GPT_init_closed_form(2) [OF init]
  have tie: "emb_weight_ref (gm_wte m) = weight_ref (gm_lm_head m)"
    by (simp add: m constructed_module_def)
  have len: "weight_ref (gm_lm_head m) < length st"
    by (simp add: m st constructed_module_def length_constructed_store)
  have val: "st ! weight_ref (gm_lm_head m) = Normal 0 std0"
    using constructed_store_shared [of cfg] by (simp add: m st constructed_module_def)
  have mem: "weight_ref (gm_lm_head m) \<in> set (all_parameters m)"
    by (simp add: all_parameters_def tie [symmetric])
  have run: "train m n st ! emb_weight_ref (gm_wte m) = train m n st ! weight_ref (gm_lm_head m)
      \<and> train m n st ! weight_ref (gm_lm_head m) = fold Updated [0..<n] (Normal 0 std0)" for n
    using train_shared [OF mem len, of n] by (simp add: tie val)
  have wr: "st'[emb_weight_ref (gm_wte m) := v] ! weight_ref (gm_lm_head m) = v
      \<and> st'[weight_ref (gm_lm_head m) := v] ! emb_weight_ref (gm_wte m) = v"
    if "length st' = length st" for st' v
    using that len by (simp add: tie)
  show "emb_weight_ref (gm_wte m) = weight_ref (gm_lm_head m)
    \<and> weight_ref (gm_lm_head m) < length st
    \<and> st ! emb_weight_ref (gm_wte m) = Normal 0 std0
    \<and> st ! weight_ref (gm_lm_head m) = Normal 0 std0
    \<and> (\<forall>n. train m n st ! emb_weight_ref (gm_wte m) = train m n st ! weight_ref (gm_lm_head m)
          \<and> train m n st ! weight_ref (gm_lm_head m) = fold Updated [0..<n] (Normal 0 std0))
    \<and> (\<forall>st' v. length st' = length st \<longrightarrow>
          st'[emb_weight_ref (gm_wte m) := v] ! weight_ref (gm_lm_head m) = v
        \<and> st'[weight_ref (gm_lm_head m) := v] ! emb_weight_ref (gm_wte m) = v)"
    using tie len val run wr by simp
qed

theorem weight_tying_witness:
  "\<exists>m st. GPT_init main_config = Inr (m, st)
     \<and> emb_weight_ref (gm_wte m) = weight_ref (gm_lm_head m)
     \<and> st ! emb_weight_ref (gm_wte m) = Normal 0 std0
     \<and> train m 2 st ! emb_weight_ref (gm_wte m) = Updated 1 (Updated 0 (Normal 0 std0))
     \<and> train m 2 st ! weight_ref (gm_lm_head m) = Updated 1 (Updated 0 (Normal 0 std0))
     \<and> (st[emb_weight_ref (gm_wte m) := Zeros]) ! weight_ref (gm_lm_head m) = Zeros"
proof -
  have cfg: "n_layer main_config = 12" "n_head main_config = 12" "n_embd main_config = 768"
    by (simp_all add: main_config_def default_config_def)
  have "n_layer main_config = 0
      \<or> (n_head main_config \<noteq> 0 \<and> n_embd main_config mod n_head main_config = 0)"
    by (simp add: cfg)
  then have "GPT_init main_config
      = Inr (constructed_module main_config, constructed_store main_config)"
    by (rule GPT_init_ok)
  then obtain m st where init: "GPT_init main_config = Inr (m, st)"
    by blast
  note c = weight_tying [of main_config, rule_format, OF init]
  have two: "fold Updated [0..<2] (Normal 0 std0) = Updated 1 (Updated 0 (Normal 0 std0))"
    by (simp add: upt_rec)
  have tie: "emb_weight_ref (gm_wte m) = weight_ref (gm_lm_head m)"
    and val: "st ! emb_weight_ref (gm_wte m) = Normal 0 std0"
    using c by blast+
  have run: "train m 2 st ! emb_weight_ref (gm_wte m) = Updated 1 (Updated 0 (Normal 0 std0))"
    "train m 2 st ! weight_ref (gm_lm_head m) = Updated 1 (Updated 0 (Normal 0 std0))"
    using c two by metis+
  note w = c [THEN conjunct2, THEN conjunct2, THEN conjunct2, THEN conjunct2, THEN conjunct2]
  have wr: "(st[emb_weight_ref (gm_wte m) := Zeros]) ! weight_ref (gm_lm_head m) = Zeros"
    using w [rule_format, of st Zeros, OF refl] by simp
  show ?thesis
    using init tie val run wr by blast
qed

end
